theory Spec2Isabelle
  imports Complex_Main "HOL-Library.Word"
begin

section \<open>Python strings\<close>

text \<open>
  A Python \<open>str\<close> is modelled as a \<open>string\<close>; a \<open>char\<close> stands for a code point
  below 256 (Latin-1), which covers every character class the routes test for.
\<close>

definition ord :: "char \<Rightarrow> nat" where
  "ord c = of_char c"

definition startswith :: "string \<Rightarrow> string \<Rightarrow> bool" where
  "startswith s p = (take (length p) s = p)"

definition endswith :: "string \<Rightarrow> string \<Rightarrow> bool" where
  "endswith s p = (length p \<le> length s \<and> drop (length s - length p) s = p)"

text \<open>\<open>contains s p\<close> is Python's \<open>p in s\<close> on strings.\<close>

fun contains :: "string \<Rightarrow> string \<Rightarrow> bool" where
  "contains [] p = (p = [])"
| "contains (c # cs) p = (startswith (c # cs) p \<or> contains cs p)"

text \<open>\<open>str.lower\<close>: the upper-case letters of Latin-1 are A-Z, 192-214 and 216-222.\<close>

definition lower_char :: "char \<Rightarrow> char" where
  "lower_char c =
     (let n = ord c
      in if (65 \<le> n \<and> n \<le> 90) \<or> (192 \<le> n \<and> n \<le> 214) \<or> (216 \<le> n \<and> n \<le> 222)
         then char_of (n + 32) else c)"

definition lower :: "string \<Rightarrow> string" where
  "lower s = map lower_char s"

text \<open>\<open>str.strip\<close> removes leading and trailing white space (\<open>str.isspace\<close>).\<close>

definition is_space :: "char \<Rightarrow> bool" where
  "is_space c =
     (let n = ord c
      in (9 \<le> n \<and> n \<le> 13) \<or> (28 \<le> n \<and> n \<le> 32) \<or> n = 133 \<or> n = 160)"

definition strip :: "string \<Rightarrow> string" where
  "strip s = rev (dropWhile is_space (rev (dropWhile is_space s)))"

text \<open>\<open>os.path.join\<close> of a directory and one component.\<close>

definition path_join :: "string \<Rightarrow> string \<Rightarrow> string" where
  "path_join a b =
     (if startswith b ''/'' then b
      else if a = [] \<or> endswith a ''/'' then a @ b
      else a @ ''/'' @ b)"

section \<open>Name sanitization\<close>

text \<open>
  \<open>re.sub(r'[^a-zA-Z0-9_-]', '', name)\<close>, as the world and backup routes apply it to
  every user-supplied world name: each character outside the class is replaced by the
  empty string.
\<close>

definition name_char :: "char \<Rightarrow> bool" where
  "name_char c =
     (let n = ord c
      in (97 \<le> n \<and> n \<le> 122) \<or> (65 \<le> n \<and> n \<le> 90) \<or> (48 \<le> n \<and> n \<le> 57)
         \<or> n = 95 \<or> n = 45)"

definition sanitize :: "string \<Rightarrow> string" where
  "sanitize name = filter name_char name"

section \<open>Decimal rendering of numbers\<close>

definition digit_char :: "nat \<Rightarrow> char" where
  "digit_char d = ''0123456789'' ! d"

text \<open>\<open>str(n)\<close> for a natural number.\<close>

fun str_nat :: "nat \<Rightarrow> string" where
  "str_nat n = (if n < 10 then [digit_char n] else str_nat (n div 10) @ [digit_char (n mod 10)])"

declare str_nat.simps [simp del]

definition str_int :: "int \<Rightarrow> string" where
  "str_int i = (if i < 0 then ''-'' @ str_nat (nat (- i)) else str_nat (nat i))"

section \<open>Configuration\<close>

text \<open>
  The settings of \<open>config.Config\<close> that the routes read. They come from the process
  environment, so every route takes the configuration as a parameter.
\<close>

record config =
  WORLD_DIR :: string
  BACKUP_DIR :: string
  LOG_DIR :: string
  SCRIPTS_DIR :: string
  WORLD_NAME :: string
  BACKUP_RETENTION :: int

definition WORLD_MANAGER_SCRIPT :: "config \<Rightarrow> string" where
  "WORLD_MANAGER_SCRIPT cfg = path_join (SCRIPTS_DIR cfg) ''world-manager.sh''"

definition BACKUP_SCRIPT :: "config \<Rightarrow> string" where
  "BACKUP_SCRIPT cfg = path_join (SCRIPTS_DIR cfg) ''backup.sh''"

definition RESTORE_SCRIPT :: "config \<Rightarrow> string" where
  "RESTORE_SCRIPT cfg = path_join (SCRIPTS_DIR cfg) ''restore.sh''"

text \<open>The defaults of \<open>config.py\<close>, used when the environment sets nothing.\<close>

definition default_config :: config where
  "default_config =
     \<lparr>WORLD_DIR = ''/terraria/worlds'', BACKUP_DIR = ''/terraria/backups'',
      LOG_DIR = ''/terraria/logs'', SCRIPTS_DIR = ''/terraria/scripts'',
      WORLD_NAME = ''world'', BACKUP_RETENTION = 48\<rparr>"

section \<open>The system outside the backend\<close>

text \<open>
  The backend acts on a filesystem and on subprocesses. A state of the system holds the
  paths that exist (path to \<open>os.stat\<close> result; \<open>st_size\<close> is an \<open>off_t\<close>, a signed
  64-bit integer), what \<open>os.listdir\<close> gives for a directory, what opening a file
  and reading its lines gives (the text of the exception, or the lines), the paths on
  which \<open>os.remove\<close> raises (with the text of the exception), and the subprocesses
  run so far, oldest first.
\<close>

record stat =
  st_size :: "64 word"
  st_mtime :: rat
  st_ctime :: rat

datatype call = Subprocess (cmd: "string list") (timeout: nat)

record sys =
  files :: "string \<rightharpoonup> stat"
  listdir :: "string \<Rightarrow> string list"
  readlines :: "string \<Rightarrow> string + string list"
  remove_error :: "string \<rightharpoonup> string"
  trace :: "call list"

text \<open>
  What \<open>subprocess.run\<close> does is not the backend's: it exits with a return code and
  captured output, runs out of time, or fails to launch; and it may change the system.
\<close>

datatype outcome = Exited int string string | TimeoutExpired | LaunchFailed string

type_synonym runner = "call \<Rightarrow> sys \<Rightarrow> outcome \<times> sys"

definition exists :: "sys \<Rightarrow> string \<Rightarrow> bool" where
  "exists s p = (files s p \<noteq> None)"

text \<open>
  \<open>subprocess.run(cmd, capture_output=True, text=True, timeout=timeout)\<close> inside the
  \<open>try\<close> of \<open>run_command\<close> and \<open>run_script\<close>; \<open>what\<close> is the word of the timeout
  message. The call is appended to the trace whatever the world does.
\<close>

definition subprocess_run ::
  "string \<Rightarrow> string list \<Rightarrow> nat \<Rightarrow> runner \<Rightarrow> sys \<Rightarrow> (bool \<times> string \<times> string) \<times> sys" where
  "subprocess_run what c t w s =
     (case w (Subprocess c t) s of
        (out, s') \<Rightarrow>
          (case out of
             Exited rc stdout stderr \<Rightarrow> (rc = 0, stdout, stderr)
           | TimeoutExpired \<Rightarrow>
               (False, [], what @ '' timed out after '' @ str_nat t @ '' seconds'')
           | LaunchFailed e \<Rightarrow> (False, [], e),
           s'\<lparr>trace := trace s @ [Subprocess c t]\<rparr>))"

definition run_script ::
  "string \<Rightarrow> string list \<Rightarrow> nat \<Rightarrow> runner \<Rightarrow> sys \<Rightarrow> (bool \<times> string \<times> string) \<times> sys" where
  "run_script script_path args t w s =
     (if \<not> exists s script_path then ((False, [], ''Script not found: '' @ script_path), s)
      else subprocess_run ''Script'' (script_path # args) t w s)"

definition run_command ::
  "string list \<Rightarrow> nat \<Rightarrow> runner \<Rightarrow> sys \<Rightarrow> (bool \<times> string \<times> string) \<times> sys" where
  "run_command c t w s = subprocess_run ''Command'' c t w s"

definition pgrep_call :: call where
  "pgrep_call = Subprocess [''pgrep'', ''-f'', ''TerrariaServer''] 30"

text \<open>\<open>is_server_running\<close>: \<open>success and stdout.strip()\<close>, read as a truth value.\<close>

definition is_server_running :: "runner \<Rightarrow> sys \<Rightarrow> bool \<times> sys" where
  "is_server_running w s =
     (case run_command [''pgrep'', ''-f'', ''TerrariaServer''] 30 w s of
        ((ok, stdout, stderr), s') \<Rightarrow> (ok \<and> strip stdout \<noteq> [], s'))"

section \<open>ANSI escape sequences\<close>

text \<open>
  \<open>strip_ansi_codes\<close> deletes every match of
  \<open>\x1B(?:[@-Z\\-_]|\[[0-?]*[ -/]*[@-~])\<close>. The three classes of the second
  alternative are disjoint, so its greedy stars never give a character back.
\<close>

definition esc_single :: "char \<Rightarrow> bool" where
  "esc_single c = (let n = ord c in (64 \<le> n \<and> n \<le> 90) \<or> (92 \<le> n \<and> n \<le> 95))"

definition csi_param :: "char \<Rightarrow> bool" where
  "csi_param c = (let n = ord c in 48 \<le> n \<and> n \<le> 63)"

definition csi_inter :: "char \<Rightarrow> bool" where
  "csi_inter c = (let n = ord c in 32 \<le> n \<and> n \<le> 47)"

definition csi_final :: "char \<Rightarrow> bool" where
  "csi_final c = (let n = ord c in 64 \<le> n \<and> n \<le> 126)"

text \<open>The text after an ESC: what is left behind the escape sequence, if there is one.\<close>

fun match_escape :: "string \<Rightarrow> string option" where
  "match_escape [] = None"
| "match_escape (c # cs) =
     (if esc_single c then Some cs
      else if c = CHR ''['' then
        (case dropWhile csi_inter (dropWhile csi_param cs) of
           [] \<Rightarrow> None
         | d # ds \<Rightarrow> if csi_final d then Some ds else None)
      else None)"

lemma match_escape_length: "match_escape cs = Some r \<Longrightarrow> length r < length cs"
proof (cases cs)
  case Nil
  assume "match_escape cs = Some r"
  with Nil show ?thesis by simp
next
  case (Cons c cs')
  assume m: "match_escape cs = Some r"
  have a: "length (dropWhile csi_inter (dropWhile csi_param cs')) \<le> length cs'"
    by (meson length_dropWhile_le order_trans)
  show ?thesis
  proof (cases "esc_single c")
    case True
    with m Cons show ?thesis by simp
  next
    case False
    with m Cons obtain d where "dropWhile csi_inter (dropWhile csi_param cs') = d # r"
      by (auto split: if_splits list.splits)
    with a Cons show ?thesis by simp
  qed
qed

function strip_ansi_codes :: "string \<Rightarrow> string" where
  "strip_ansi_codes [] = []"
| "strip_ansi_codes (c # cs) =
     (if ord c = 27 then
        (case match_escape cs of
           Some r \<Rightarrow> strip_ansi_codes r
         | None \<Rightarrow> c # strip_ansi_codes cs)
      else c # strip_ansi_codes cs)"
  by pat_completeness auto
termination
  by (relation "measure length") (auto dest: match_escape_length)

section \<open>Floating point values and human-readable sizes\<close>

text \<open>
  A Python \<open>float\<close> is an IEEE double. Every double is a rational number, and the
  formatters below only convert an integer to a double, divide by \<open>1024.0\<close> (exact: a
  change of exponent, on values of magnitude at least 1) and compare, so a float is
  modelled by the rational it denotes. \<open>float_of_int\<close> is the conversion of an \<open>int\<close>:
  to the nearest double of 53 significant bits, ties to even, and \<open>OverflowError\<close>
  when the result does not fit.
\<close>

datatype exn = OverflowError

fun bit_length :: "nat \<Rightarrow> nat" where
  "bit_length n = (if n = 0 then 0 else Suc (bit_length (n div 2)))"

declare bit_length.simps [simp del]

definition float_of_int :: "int \<Rightarrow> exn + rat" where
  "float_of_int i =
     (let a = nat \<bar>i\<bar>
      in if a < 2 ^ 53 then Inr (of_int i)
         else
           let e = bit_length a - 53; q = a div 2 ^ e; r = a mod 2 ^ e; h = 2 ^ (e - 1);
               q' = (if h < r \<or> (r = h \<and> odd q) then q + 1 else q)
           in if 2 ^ 1024 \<le> q' * 2 ^ e then Inl OverflowError
              else Inr (of_int (sgn i) * of_nat (q' * 2 ^ e)))"

definition round_half_even :: "rat \<Rightarrow> int" where
  "round_half_even x =
     (let f = \<lfloor>x\<rfloor>; d = x - of_int f
      in if d < 1 / 2 then f else if 1 / 2 < d then f + 1 else if even f then f else f + 1)"

text \<open>
  \<open>f"{x:.1f}"\<close> for a float \<open>x\<close>: the decimal with one fractional digit nearest to the
  exact value of \<open>x\<close>, ties to even, with the sign of \<open>x\<close>.
\<close>

definition fmt1 :: "rat \<Rightarrow> string" where
  "fmt1 x =
     (let t = nat (round_half_even (\<bar>x\<bar> * 10))
      in (if x < 0 then ''-'' else []) @ str_nat (t div 10) @ ''.'' @ [digit_char (t mod 10)])"

text \<open>The variable \<open>size\<close> of \<open>format_bytes\<close> holds an \<open>int\<close> at first, then a float.\<close>

datatype num = PyInt int | PyFloat rat

fun num_val :: "num \<Rightarrow> rat" where
  "num_val (PyInt i) = of_int i"
| "num_val (PyFloat x) = x"

fun to_float :: "num \<Rightarrow> exn + rat" where
  "to_float (PyInt i) = float_of_int i"
| "to_float (PyFloat x) = Inr x"

text \<open>
  The loop \<open>for unit in units: if abs(size) < 1024.0: return f"{size:.1f}{unit}";
  size /= 1024.0\<close> and the \<open>return f"{size:.1f}{final}"\<close> after it. Formatting an
  \<open>int\<close> with \<open>.1f\<close> and dividing it by a float both convert it to a float first.
\<close>

fun format_loop :: "string list \<Rightarrow> string \<Rightarrow> num \<Rightarrow> exn + string" where
  "format_loop [] final v =
     (case to_float v of Inl e \<Rightarrow> Inl e | Inr x \<Rightarrow> Inr (fmt1 x @ final))"
| "format_loop (unit # units) final v =
     (if \<bar>num_val v\<bar> < 1024 then
        (case to_float v of Inl e \<Rightarrow> Inl e | Inr x \<Rightarrow> Inr (fmt1 x @ unit))
      else
        (case to_float v of
           Inl e \<Rightarrow> Inl e
         | Inr x \<Rightarrow> format_loop units final (PyFloat (x / 1024))))"

text \<open>\<open>utils.format_bytes\<close>.\<close>

definition format_bytes :: "int \<Rightarrow> exn + string" where
  "format_bytes sz = format_loop [''B'', ''KB'', ''MB'', ''GB'', ''TB''] ''PB'' (PyInt sz)"

text \<open>\<open>format_bytes\<close> of \<open>routes/logs_routes.py\<close>, a second definition of its own.\<close>

definition logs_format_bytes :: "int \<Rightarrow> exn + string" where
  "logs_format_bytes sz = format_loop [''B'', ''KB'', ''MB'', ''GB''] ''TB'' (PyInt sz)"

section \<open>File information\<close>

record file_info =
  path :: string
  name :: string
  size_bytes :: int
  size_human :: string
  modified :: rat
  created :: rat

definition basename :: "string \<Rightarrow> string" where
  "basename p = rev (takeWhile (\<lambda>c. c \<noteq> CHR ''/'') (rev p))"

text \<open>\<open>get_file_info\<close>: \<open>None\<close> for a path that does not exist.\<close>

definition get_file_info :: "sys \<Rightarrow> string \<Rightarrow> exn + file_info option" where
  "get_file_info s filepath =
     (case files s filepath of
        None \<Rightarrow> Inr None
      | Some st \<Rightarrow>
          (case format_bytes (sint (st_size st)) of
             Inl e \<Rightarrow> Inl e
           | Inr h \<Rightarrow>
               Inr (Some \<lparr>path = filepath, name = basename filepath,
                          size_bytes = sint (st_size st), size_human = h,
                          modified = st_mtime st, created = st_ctime st\<rparr>)))"

text \<open>
  \<open>os.remove\<close>: raises on a path that does not exist and wherever the system refuses.
\<close>

definition os_remove :: "string \<Rightarrow> sys \<Rightarrow> string + sys" where
  "os_remove p s =
     (case remove_error s p of
        Some e \<Rightarrow> Inl e
      | None \<Rightarrow>
          if files s p = None then Inl (''[Errno 2] No such file or directory: '' @ p)
          else Inr (s\<lparr>files := (files s)(p := None)\<rparr>))"

section \<open>Requests and responses\<close>

text \<open>
  \<open>request.args\<close> maps a query parameter to its value; \<open>args_get a k d\<close> is
  \<open>request.args.get(k, d)\<close>.
\<close>

type_synonym query = "string \<rightharpoonup> string"

definition args_get :: "query \<Rightarrow> string \<Rightarrow> string \<Rightarrow> string" where
  "args_get a k d = (case a k of None \<Rightarrow> d | Some v \<Rightarrow> v)"

text \<open>\<open>a or b\<close> on strings.\<close>

definition str_or :: "string \<Rightarrow> string \<Rightarrow> string" where
  "str_or a b = (if a \<noteq> [] then a else b)"

record world_summary =
  ws_name :: string
  ws_size :: string
  size_code :: int
  difficulty :: int

text \<open>
  A response is the HTTP status with the fields of the JSON body; a field the body does
  not have is \<open>None\<close>. The field \<open>stdout_text\<close> is the key \<open>output\<close> of the body.
\<close>

record response =
  status :: nat
  success :: "bool option"
  error :: "string option"
  message :: "string option"
  stdout_text :: "string option"
  world :: "world_summary option"

definition respond :: "nat \<Rightarrow> response" where
  "respond code =
     \<lparr>status = code, success = None, error = None, message = None, stdout_text = None,
      world = None\<rparr>"

text \<open>\<open>{'error': e, 'message': m}\<close>, as the routes reject a request.\<close>

definition rejected :: "nat \<Rightarrow> string \<Rightarrow> string \<Rightarrow> response" where
  "rejected code e m = (respond code)\<lparr>error := Some e, message := Some m\<rparr>"

text \<open>\<open>{'success': True, 'message': m, 'output': strip_ansi_codes(stdout)}\<close>.\<close>

definition succeeded :: "nat \<Rightarrow> string \<Rightarrow> string \<Rightarrow> response" where
  "succeeded code m stdout =
     (respond code)\<lparr>success := Some True, message := Some m,
                     stdout_text := Some (strip_ansi_codes stdout)\<rparr>"

text \<open>\<open>{'success': False, 'message': m, 'error': e}\<close>.\<close>

definition failed :: "nat \<Rightarrow> string \<Rightarrow> string \<Rightarrow> response" where
  "failed code m e = (respond code)\<lparr>success := Some False, message := Some m, error := Some e\<rparr>"

text \<open>The handler of \<open>app.py\<close> for an exception that no route catches.\<close>

definition internal_error :: response where
  "internal_error = rejected 500 ''Internal Server Error'' ''An unexpected error occurred''"

section \<open>Server control routes\<close>

definition start_call :: call where
  "start_call = Subprocess [''supervisorctl'', ''start'', ''terraria''] 30"

definition stop_call :: call where
  "stop_call = Subprocess [''supervisorctl'', ''stop'', ''terraria''] 30"

definition restart_call :: call where
  "restart_call = Subprocess [''supervisorctl'', ''restart'', ''terraria''] 30"

definition start_server :: "runner \<Rightarrow> sys \<Rightarrow> response \<times> sys" where
  "start_server w s =
     (case is_server_running w s of
        (running, s1) \<Rightarrow>
          if running then
            ((respond 400)\<lparr>success := Some False,
                            message := Some ''Server is already running''\<rparr>, s1)
          else
            (case run_command [''supervisorctl'', ''start'', ''terraria''] 30 w s1 of
               ((ok, stdout, stderr), s2) \<Rightarrow>
                 if ok \<or> contains (lower stdout) ''already started'' then
                   (succeeded 200 ''Server start command sent'' stdout, s2)
                 else
                   (failed 500 ''Failed to start server''
                      (strip_ansi_codes (str_or stderr stdout)), s2)))"

definition stop_server :: "runner \<Rightarrow> sys \<Rightarrow> response \<times> sys" where
  "stop_server w s =
     (case is_server_running w s of
        (running, s1) \<Rightarrow>
          if \<not> running then
            ((respond 400)\<lparr>success := Some False,
                            message := Some ''Server is not running''\<rparr>, s1)
          else
            (case run_command [''supervisorctl'', ''stop'', ''terraria''] 30 w s1 of
               ((ok, stdout, stderr), s2) \<Rightarrow>
                 if ok \<or> contains (lower stdout) ''already stopped'' then
                   (succeeded 200 ''Server stop command sent. World will be saved.'' stdout, s2)
                 else
                   (failed 500 ''Failed to stop server''
                      (strip_ansi_codes (str_or stderr stdout)), s2)))"

definition restart_server :: "runner \<Rightarrow> sys \<Rightarrow> response \<times> sys" where
  "restart_server w s =
     (case run_command [''supervisorctl'', ''restart'', ''terraria''] 30 w s of
        ((ok, stdout, stderr), s1) \<Rightarrow>
          if ok then
            (succeeded 200 ''Server restart command sent. Players will be disconnected.''
               stdout, s1)
          else
            (failed 500 ''Failed to restart server''
               (strip_ansi_codes (str_or stderr stdout)), s1))"

section \<open>Backup routes: restore and delete\<close>

definition restore_backup ::
  "config \<Rightarrow> query \<Rightarrow> runner \<Rightarrow> string \<Rightarrow> sys \<Rightarrow> response \<times> sys" where
  "restore_backup cfg args w filename s =
     (if contains filename ''..'' \<or> contains filename ''/'' then
        (rejected 400 ''Invalid filename'' ''Invalid backup filename'', s)
      else
        let filepath = path_join (BACKUP_DIR cfg) filename
        in if \<not> exists s filepath then
             (rejected 404 ''Backup not found''
                (''Backup '' @ [CHR 39] @ filename @ [CHR 39] @ '' does not exist''), s)
           else
             (case is_server_running w s of
                (running, s1) \<Rightarrow>
                  if running then
                    (rejected 400 ''Server running''
                       ''Stop the server before restoring a backup'', s1)
                  else
                    let no_backup = (lower (args_get args ''no_backup'' ''false'') = ''true'');
                        a = [''restore'', filename, ''--force'']
                            @ (if no_backup then [''--no-backup''] else [])
                    in (case run_script (RESTORE_SCRIPT cfg) a 60 w s1 of
                          ((ok, stdout, stderr), s2) \<Rightarrow>
                            if ok then
                              (succeeded 200 ''Backup restored successfully'' stdout, s2)
                            else
                              (failed 500 ''Failed to restore backup''
                                 (strip_ansi_codes (str_or stderr stdout)), s2))))"

definition delete_backup :: "config \<Rightarrow> query \<Rightarrow> string \<Rightarrow> sys \<Rightarrow> response \<times> sys" where
  "delete_backup cfg args filename s =
     (if contains filename ''..'' \<or> contains filename ''/'' then
        (rejected 400 ''Invalid filename'' ''Invalid backup filename'', s)
      else
        let filepath = path_join (BACKUP_DIR cfg) filename
        in if \<not> exists s filepath then
             (rejected 404 ''Backup not found''
                (''Backup '' @ [CHR 39] @ filename @ [CHR 39] @ '' does not exist''), s)
           else
             let confirm = lower (args_get args ''confirm'' ''false'')
             in if confirm \<noteq> ''true'' then
                  (rejected 400 ''Confirmation required''
                     ''Add ?confirm=true to URL to confirm deletion'', s)
                else
                  (case os_remove filepath s of
                     Inr s1 \<Rightarrow>
                       ((respond 200)\<lparr>success := Some True,
                          message := Some (''Backup '' @ [CHR 39] @ filename @ [CHR 39]
                                           @ '' deleted successfully'')\<rparr>, s1)
                   | Inl e \<Rightarrow> (failed 500 ''Failed to delete backup'' e, s)))"

section \<open>World routes: create and delete\<close>

text \<open>
  The JSON body of a world creation, with the keys the route reads; a key the body
  does not have is \<open>None\<close>. The name and the seed are strings and the size and the
  difficulty integers: a body with values of other JSON types is not modelled.
  \<open>request.get_json()\<close> gives \<open>None\<close> for a body that is JSON \<open>null\<close>.
\<close>

record create_body =
  b_name :: "string option"
  b_size :: "int option"
  b_difficulty :: "int option"
  b_seed :: "string option"

text \<open>\<open>not data\<close>: no body, or an empty object.\<close>

definition no_data :: "create_body option \<Rightarrow> bool" where
  "no_data data =
     (case data of
        None \<Rightarrow> True
      | Some d \<Rightarrow> b_name d = None \<and> b_size d = None \<and> b_difficulty d = None \<and> b_seed d = None)"

definition world_path :: "config \<Rightarrow> string \<Rightarrow> string" where
  "world_path cfg n = path_join (WORLD_DIR cfg) (n @ ''.wld'')"

text \<open>
  \<open>create_world\<close>. The route builds an environment with \<open>WORLD_NAME\<close>, \<open>AUTOCREATE\<close>,
  \<open>DIFFICULTY\<close> and \<open>WORLD_SEED\<close>, and does not hand it to \<open>run_script\<close>: the script
  runs with the arguments \<open>['create-auto']\<close> alone.
\<close>

definition create_world ::
  "config \<Rightarrow> create_body option \<Rightarrow> runner \<Rightarrow> sys \<Rightarrow> response \<times> sys" where
  "create_world cfg data w s =
     (if no_data data then
        (rejected 400 ''Invalid request'' ''Request body must be JSON'', s)
      else
        let d = the data;
            name0 = (case b_name d of None \<Rightarrow> [] | Some n \<Rightarrow> n);
            size0 = (case b_size d of None \<Rightarrow> 2 | Some n \<Rightarrow> n);
            difficulty0 = (case b_difficulty d of None \<Rightarrow> 0 | Some n \<Rightarrow> n)
        in if name0 = [] then
             (rejected 400 ''Missing parameter'' ''World name is required'', s)
           else
             let sanitized_name = sanitize name0
             in if sanitized_name = [] then
                  (rejected 400 ''Invalid name''
                     ''World name must contain at least one alphanumeric character'', s)
                else
                  let filepath = world_path cfg sanitized_name
                  in if exists s filepath then
                       (rejected 409 ''World exists''
                          (''World '' @ [CHR 39] @ sanitized_name @ [CHR 39]
                           @ '' already exists''), s)
                     else
                       let size1 = (if size0 \<in> set [1, 2, 3] then size0 else 2);
                           difficulty1 =
                             (if difficulty0 \<in> set [0, 1, 2, 3] then difficulty0 else 0)
                       in (case run_script (WORLD_MANAGER_SCRIPT cfg) [''create-auto''] 300 w s of
                             ((ok, stdout, stderr), s1) \<Rightarrow>
                               if exists s1 filepath then
                                 (case get_file_info s1 filepath of
                                    Inr (Some info) \<Rightarrow>
                                      ((respond 201)\<lparr>success := Some True,
                                         message := Some (''World '' @ [CHR 39] @ sanitized_name
                                                          @ [CHR 39] @ '' created successfully''),
                                         world := Some \<lparr>ws_name = sanitized_name,
                                                         ws_size = size_human info,
                                                         size_code = size1,
                                                         difficulty = difficulty1\<rparr>\<rparr>, s1)
                                  | _ \<Rightarrow> (internal_error, s1))
                               else
                                 (failed 500 ''Failed to create world''
                                    (strip_ansi_codes (str_or stderr stdout)), s1)))"

definition delete_world ::
  "config \<Rightarrow> query \<Rightarrow> runner \<Rightarrow> string \<Rightarrow> sys \<Rightarrow> response \<times> sys" where
  "delete_world cfg args w name0 s =
     (let n = sanitize name0;
          filepath = world_path cfg n
      in if \<not> exists s filepath then
           (rejected 404 ''World not found''
              (''World '' @ [CHR 39] @ n @ [CHR 39] @ '' does not exist''), s)
         else
           let confirm = args_get args ''confirm'' []
           in if confirm \<noteq> n then
                (rejected 400 ''Confirmation required''
                   (''Add ?confirm='' @ n @ '' to URL to confirm deletion''), s)
              else
                (case (if n = WORLD_NAME cfg then is_server_running w s else (False, s)) of
                   (active_running, s1) \<Rightarrow>
                     if active_running then
                       (rejected 400 ''Cannot delete active world''
                          ''Stop the server before deleting the active world'', s1)
                     else
                       (case os_remove filepath s1 of
                          Inl e \<Rightarrow> (failed 500 ''Failed to delete world'' e, s1)
                        | Inr s2 \<Rightarrow>
                            let bak_filepath = filepath @ ''.bak'';
                                deleted =
                                  (respond 200)\<lparr>success := Some True,
                                    message := Some (''World '' @ [CHR 39] @ n @ [CHR 39]
                                                     @ '' deleted successfully'')\<rparr>
                            in if exists s2 bak_filepath then
                                 (case os_remove bak_filepath s2 of
                                    Inl e \<Rightarrow> (failed 500 ''Failed to delete world'' e, s2)
                                  | Inr s3 \<Rightarrow> (deleted, s3))
                               else (deleted, s2))))"

section \<open>Backup file names\<close>

text \<open>
  \<open>parse_backup_filename\<close> matches
  \<open>backup_(.+)_(\d{8})_(\d{6})\.tar(?:\.gz)?$\<close> at the start of the name with
  \<open>re.match\<close>. Below code point 256 \<open>\d\<close> is an ASCII digit; \<open>.\<close> is any character but
  a newline; \<open>$\<close> matches at the end of the string and also just before a newline that
  ends the string.
\<close>

definition is_digit :: "char \<Rightarrow> bool" where
  "is_digit c = (let n = ord c in 48 \<le> n \<and> n \<le> 57)"

definition at_end :: "string \<Rightarrow> bool" where
  "at_end r = (r = [] \<or> r = [CHR 0x0A])"

text \<open>
  The pattern behind the world name, \<open>_(\d{8})_(\d{6})\.tar(?:\.gz)?$\<close>, on what is
  left of the name: the date and the time. The optional group is tried first with
  \<open>.gz\<close>, then without.
\<close>

definition match_tail :: "string \<Rightarrow> (string \<times> string) option" where
  "match_tail r =
     (let d = take 8 (drop 1 r); t = take 6 (drop 10 r); rest = drop 20 r
      in if take 1 r = ''_'' \<and> length d = 8 \<and> list_all is_digit d
            \<and> take 1 (drop 9 r) = ''_'' \<and> length t = 6 \<and> list_all is_digit t
            \<and> take 4 (drop 16 r) = ''.tar''
            \<and> ((startswith rest ''.gz'' \<and> at_end (drop 3 rest)) \<or> at_end rest)
         then Some (d, t) else None)"

text \<open>
  The greedy group \<open>(.+)\<close> on the text behind \<open>backup_\<close>: it first takes \<open>n\<close>
  characters, as many as there are before the first newline, and gives them back one
  at a time, down to one character, until the rest of the pattern matches.
\<close>

fun match_world :: "nat \<Rightarrow> string \<Rightarrow> (string \<times> string \<times> string) option" where
  "match_world 0 body = None"
| "match_world (Suc n) body =
     (case match_tail (drop (Suc n) body) of
        Some (d, t) \<Rightarrow> Some (take (Suc n) body, d, t)
      | None \<Rightarrow> match_world n body)"

record backup_name =
  world_name :: string
  date :: string
  time :: string

definition parse_backup_filename :: "string \<Rightarrow> backup_name option" where
  "parse_backup_filename filename =
     (if startswith filename ''backup_'' then
        let body = drop 7 filename
        in (case match_world (length (takeWhile (\<lambda>c. c \<noteq> CHR 0x0A) body)) body of
              Some (w, d, t) \<Rightarrow> Some \<lparr>world_name = w, date = d, time = t\<rparr>
            | None \<Rightarrow> None)
      else None)"

text \<open>The name put together again from the parts, with a given suffix.\<close>

definition backup_filename :: "backup_name \<Rightarrow> string \<Rightarrow> string" where
  "backup_filename p suffix =
     ''backup_'' @ world_name p @ ''_'' @ date p @ ''_'' @ time p @ suffix"

section \<open>Listing backups\<close>

record backup_entry =
  be_filename :: string
  be_world_name :: string
  be_date :: string
  be_time :: string
  be_size_bytes :: int
  be_size :: string
  be_created :: rat

text \<open>
  The loop of \<open>list_backups\<close> over \<open>os.listdir(Config.BACKUP_DIR)\<close>: the entries it
  appends, in the order of the directory listing.
\<close>

fun collect_backups ::
  "config \<Rightarrow> string \<Rightarrow> sys \<Rightarrow> string list \<Rightarrow> exn + backup_entry list" where
  "collect_backups cfg world_filter s [] = Inr []"
| "collect_backups cfg world_filter s (filename # filenames) =
     (if \<not> startswith filename ''backup_''
         \<or> \<not> (endswith filename ''.tar.gz'' \<or> endswith filename ''.tar'')
      then collect_backups cfg world_filter s filenames
      else
        (case parse_backup_filename filename of
           None \<Rightarrow> collect_backups cfg world_filter s filenames
         | Some parsed \<Rightarrow>
             if world_filter \<noteq> [] \<and> world_name parsed \<noteq> world_filter
             then collect_backups cfg world_filter s filenames
             else
               (case get_file_info s (path_join (BACKUP_DIR cfg) filename) of
                  Inl e \<Rightarrow> Inl e
                | Inr None \<Rightarrow> collect_backups cfg world_filter s filenames
                | Inr (Some info) \<Rightarrow>
                    (case collect_backups cfg world_filter s filenames of
                       Inl e \<Rightarrow> Inl e
                     | Inr bs \<Rightarrow>
                         Inr (\<lparr>be_filename = filename, be_world_name = world_name parsed,
                               be_date = date parsed, be_time = time parsed,
                               be_size_bytes = size_bytes info, be_size = size_human info,
                               be_created = modified info\<rparr> # bs)))))"

text \<open>
  \<open>backups.sort(key=lambda b: b['created'], reverse=True)\<close>: descending by key, and
  entries of equal key keep their order.
\<close>

definition sort_newest_first :: "backup_entry list \<Rightarrow> backup_entry list" where
  "sort_newest_first bs = rev (sort_key be_created (rev bs))"

record backup_listing =
  backups :: "backup_entry list"
  count :: nat
  total_size :: string
  total_size_bytes :: int
  retention :: int

text \<open>
  \<open>list_backups\<close>, with the query parameters \<open>world\<close> (the empty string when absent)
  and \<open>limit\<close> (\<open>None\<close> when absent or not an integer). The route always answers 200;
  \<open>Inl\<close> is an exception that it does not catch.
\<close>

definition list_backups ::
  "config \<Rightarrow> string \<Rightarrow> int option \<Rightarrow> sys \<Rightarrow> exn + backup_listing" where
  "list_backups cfg world_filter limit s =
     (case (if exists s (BACKUP_DIR cfg)
            then collect_backups cfg world_filter s (listdir s (BACKUP_DIR cfg))
            else Inr []) of
        Inl e \<Rightarrow> Inl e
      | Inr found \<Rightarrow>
          let total = sum_list (map be_size_bytes found);
              sorted_backups = sort_newest_first found;
              limited =
                (case limit of
                   None \<Rightarrow> sorted_backups
                 | Some l \<Rightarrow> if l \<noteq> 0 \<and> 0 < l then take (nat l) sorted_backups
                             else sorted_backups)
          in (case format_bytes total of
                Inl e \<Rightarrow> Inl e
              | Inr human \<Rightarrow>
                  Inr \<lparr>backups = limited, count = length limited, total_size = human,
                       total_size_bytes = total, retention = BACKUP_RETENTION cfg\<rparr>))"

section \<open>Reading a log\<close>

text \<open>Python slices: an index below zero counts from the end, and every index is clipped.\<close>

definition py_index :: "int \<Rightarrow> nat \<Rightarrow> nat" where
  "py_index i n = (if i < 0 then nat (max (i + int n) 0) else min (nat i) n)"

text \<open>\<open>xs[a:]\<close>.\<close>

definition slice_from :: "int \<Rightarrow> 'a list \<Rightarrow> 'a list" where
  "slice_from a xs = drop (py_index a (length xs)) xs"

text \<open>\<open>xs[a:b]\<close>.\<close>

definition slice :: "int \<Rightarrow> int \<Rightarrow> 'a list \<Rightarrow> 'a list" where
  "slice a b xs =
     take (py_index b (length xs) - py_index a (length xs)) (drop (py_index a (length xs)) xs)"

definition log_files :: "(string \<times> string) list" where
  "log_files =
     [(''server'', ''terraria-stdout.log''), (''stdout'', ''terraria-stdout.log''),
      (''error'', ''terraria-stderr.log''), (''stderr'', ''terraria-stderr.log''),
      (''supervisor'', ''supervisord.log''), (''crash'', ''crashes.log''),
      (''crashes'', ''crashes.log''), (''backup'', ''backup.log''),
      (''restore'', ''restore.log''), (''world'', ''world-manager.log'')]"

record log_page =
  selected_lines :: "string list"
  content :: string
  lines_returned :: int
  total_lines :: int
  start_line :: int
  end_line :: int

text \<open>
  The four answers of \<open>get_log\<close>: 400 for an unknown log type, 200 with
  \<open>exists: false\<close> for a log file that is not there, 200 with a page of the file, and
  500 when reading fails. \<open>selected_lines\<close> is the list that \<open>content\<close> joins.
\<close>

datatype log_response =
  InvalidLogType string
| LogAbsent string
| LogPage string log_page
| ReadFailed string

fun log_status :: "log_response \<Rightarrow> nat" where
  "log_status (InvalidLogType m) = 400"
| "log_status (LogAbsent f) = 200"
| "log_status (LogPage f p) = 200"
| "log_status (ReadFailed e) = 500"

text \<open>
  \<open>get_log\<close>, with the query parameters \<open>lines\<close> and \<open>offset\<close> as
  \<open>request.args.get(..., type=int)\<close> gives them: \<open>None\<close> when the parameter is absent
  or is not an integer, and then the default applies.
\<close>

definition get_log :: "config \<Rightarrow> string \<Rightarrow> int option \<Rightarrow> int option \<Rightarrow> sys \<Rightarrow> log_response" where
  "get_log cfg log_type lines_arg offset_arg s =
     (case map_of log_files log_type of
        None \<Rightarrow> InvalidLogType (''Unknown log type: '' @ log_type)
      | Some filename \<Rightarrow>
          let filepath = path_join (LOG_DIR cfg) filename
          in if \<not> exists s filepath then LogAbsent filename
             else
               let lines = min (case lines_arg of None \<Rightarrow> 100 | Some n \<Rightarrow> n) 1000;
                   offset = max (case offset_arg of None \<Rightarrow> 0 | Some n \<Rightarrow> n) 0
               in (case readlines s filepath of
                     Inl e \<Rightarrow> ReadFailed e
                   | Inr all_lines \<Rightarrow>
                       let total = int (length all_lines);
                           selected =
                             (if offset = 0 then
                                (if lines < total then slice_from (- lines) all_lines
                                 else all_lines)
                              else slice offset (offset + lines) all_lines);
                           start = (if offset = 0 then max (total - lines) 0 else offset)
                       in LogPage filename
                            \<lparr>selected_lines = selected, content = concat selected,
                             lines_returned = int (length selected), total_lines = total,
                             start_line = start,
                             end_line = start + int (length selected)\<rparr>))"

section \<open>Traces and example systems\<close>

text \<open>The subprocesses an operation ran: the calls of the state after it that are new.\<close>

definition new_calls :: "sys \<Rightarrow> sys \<Rightarrow> call list" where
  "new_calls s s' = drop (length (trace s)) (trace s')"

text \<open>The calls that run a given script.\<close>

definition runs_of :: "string \<Rightarrow> call list \<Rightarrow> call list" where
  "runs_of script cs = filter (\<lambda>c. take 1 (cmd c) = [script]) cs"

text \<open>Whether the process table is probed somewhere after the first call \<open>c\<close>.\<close>

definition probed_after :: "call \<Rightarrow> call list \<Rightarrow> bool" where
  "probed_after c cs = (pgrep_call \<in> set (drop 1 (dropWhile (\<lambda>x. x \<noteq> c) cs)))"

text \<open>
  What a subprocess gave back, as \<open>run_command\<close> reads it: whether it exited with
  return code 0, and its captured standard output (empty when it timed out or did not
  launch). \<open>outcome_of c w s\<close> is what the runner gives for the call \<open>c\<close> in the
  state \<open>s\<close>; \<open>accepted already out\<close> is the test \<open>success or already in
  stdout.lower()\<close> of the start and stop routes.
\<close>

fun exited_zero :: "outcome \<Rightarrow> bool" where
  "exited_zero (Exited rc stdout stderr) = (rc = 0)"
| "exited_zero TimeoutExpired = False"
| "exited_zero (LaunchFailed e) = False"

fun stdout_of :: "outcome \<Rightarrow> string" where
  "stdout_of (Exited rc stdout stderr) = stdout"
| "stdout_of TimeoutExpired = []"
| "stdout_of (LaunchFailed e) = []"

definition outcome_of :: "call \<Rightarrow> runner \<Rightarrow> sys \<Rightarrow> outcome" where
  "outcome_of c w s = fst (w c s)"

definition accepted :: "string \<Rightarrow> outcome \<Rightarrow> bool" where
  "accepted already out = (exited_zero out \<or> contains (lower (stdout_of out)) already)"

text \<open>
  Concrete systems for the examples: a filesystem holding the given paths and nothing
  run yet; a runner under which the server process is found; one under which it is not
  found and \<open>supervisorctl\<close> succeeds; one whose every subprocess creates a file and
  exits with a given code; one whose every subprocess only exits with a given code.
\<close>

definition stat0 :: stat where
  "stat0 = \<lparr>st_size = 1536, st_mtime = 0, st_ctime = 0\<rparr>"

definition sys_of :: "string list \<Rightarrow> sys" where
  "sys_of ps =
     \<lparr>files = map_of (map (\<lambda>p. (p, stat0)) ps), listdir = (\<lambda>d. []),
      readlines = (\<lambda>p. Inr []), remove_error = Map.empty, trace = []\<rparr>"

definition runner_alive :: runner where
  "runner_alive c s = (Exited 0 (''4242'' @ [CHR 10]) [], s)"

definition runner_stopped :: runner where
  "runner_stopped c s =
     (if c = pgrep_call then (Exited 1 [] [], s)
      else (Exited 0 ''terraria: started'' [], s))"

text \<open>A runner under which the server is not found and \<open>supervisorctl\<close> fails.\<close>

definition runner_refuses :: runner where
  "runner_refuses c s =
     (if c = pgrep_call then (Exited 1 [] [], s)
      else (Exited 7 [] ''terraria: ERROR (spawn error)'', s))"

definition runner_creates :: "string \<Rightarrow> int \<Rightarrow> runner" where
  "runner_creates p rc c s = (Exited rc [] [], s\<lparr>files := (files s)(p \<mapsto> stat0)\<rparr>)"

definition runner_exits :: "int \<Rightarrow> runner" where
  "runner_exits rc c s = (Exited rc [] [], s)"

text \<open>A system whose server log holds the given lines.\<close>

definition log_sys :: "string list \<Rightarrow> sys" where
  "log_sys ls =
     \<lparr>files = [''/terraria/logs/terraria-stdout.log'' \<mapsto> stat0], listdir = (\<lambda>d. []),
      readlines = (\<lambda>p. Inr ls), remove_error = Map.empty, trace = []\<rparr>"

definition body_alpha :: create_body where
  "body_alpha = \<lparr>b_name = Some ''Alpha'', b_size = Some 3, b_difficulty = None, b_seed = None\<rparr>"

section \<open>Properties of sanitization\<close>

lemma sanitize_example: "sanitize ''My World!_2-b.wld'' = ''MyWorld_2-bwld''"
  by (simp add: sanitize_def name_char_def ord_def)

text \<open>
  C4: sanitization is a total function whose result holds only characters of
  \<open>[A-Za-z0-9_-]\<close>, and sanitizing a second time changes nothing.
\<close>

theorem sanitize_total_idempotent:
  "list_all name_char (sanitize s) \<and> sanitize (sanitize s) = sanitize s"
  by (simp add: sanitize_def list_all_iff)

section \<open>Conversions and file information never fail on real sizes\<close>

lemma bit_length_le: "a < 2 ^ n \<Longrightarrow> bit_length a \<le> n"
proof (induction n arbitrary: a)
  case 0
  then show ?case by (simp add: bit_length.simps [of 0])
next
  case (Suc n)
  then have "a div 2 < 2 ^ n" by simp
  then have "bit_length (a div 2) \<le> n" by (rule Suc.IH)
  then show ?case by (simp add: bit_length.simps [of a])
qed

lemma float_of_int_fits:
  assumes "\<bar>i\<bar> < 2 ^ 64"
  shows "\<exists>y. float_of_int i = Inr y"
proof -
  define a where "a = nat \<bar>i\<bar>"
  define e where "e = bit_length a - 53"
  define q where "q = a div 2 ^ e"
  define q' where "q' = (if 2 ^ (e - 1) < a mod 2 ^ e \<or> (a mod 2 ^ e = 2 ^ (e - 1) \<and> odd q) then q + 1 else q)"
  have a: "a < 2 ^ 64" using assms by (simp add: a_def nat_less_iff)
  then have "bit_length a \<le> 64" by (rule bit_length_le)
  then have e: "e \<le> 11" by (simp add: e_def)
  have "q \<le> a" by (simp add: q_def)
  then have "q' \<le> 2 ^ 64" using a by (simp add: q'_def)
  moreover have "(2::nat) ^ e \<le> 2 ^ 11" using e by (intro power_increasing) simp_all
  ultimately have "q' * 2 ^ e \<le> 2 ^ 64 * 2 ^ 11" by (rule mult_mono) simp_all
  also have "\<dots> = (2::nat) ^ 75" by (simp flip: power_add)
  also have "\<dots> < 2 ^ 1024" by (intro power_strict_increasing) simp_all
  finally have "\<not> 2 ^ 1024 \<le> q' * 2 ^ e" by simp
  then show ?thesis
    unfolding float_of_int_def Let_def a_def [symmetric] e_def [symmetric] q_def [symmetric]
      q'_def [symmetric]
    by simp
qed

lemma format_loop_float: "\<exists>h. format_loop us fin (PyFloat x) = Inr h"
  by (induction us arbitrary: x) simp_all

lemma format_loop_fits:
  assumes "float_of_int i = Inr y"
  shows "\<exists>h. format_loop us fin (PyInt i) = Inr h"
  using assms format_loop_float by (cases us) simp_all

lemma format_bytes_stat: "\<exists>h. format_bytes (sint (x :: 64 word)) = Inr h"
proof -
  have "\<bar>sint x\<bar> < 2 ^ 64"
    using sint_lt [of x] sint_ge [of x] by simp
  then obtain y where "float_of_int (sint x) = Inr y"
    using float_of_int_fits by blast
  then show ?thesis
    unfolding format_bytes_def by (rule format_loop_fits)
qed

lemma get_file_info_exists:
  "exists s p \<Longrightarrow> \<exists>info. get_file_info s p = Inr (Some info)"
proof -
  assume "exists s p"
  then obtain st where st: "files s p = Some st"
    by (auto simp: exists_def)
  obtain h where "format_bytes (sint (st_size st)) = Inr h"
    using format_bytes_stat by blast
  with st show ?thesis
    by (simp add: get_file_info_def)
qed

lemma trace_subprocess_run:
  "trace (snd (subprocess_run what c t w s)) = trace s @ [Subprocess c t]"
  by (simp add: subprocess_run_def split: prod.splits outcome.splits)

lemma snd_is_server_running:
  "snd (is_server_running w s) = snd (run_command [''pgrep'', ''-f'', ''TerrariaServer''] 30 w s)"
  by (simp add: is_server_running_def split: prod.splits)

lemma trace_run_command: "trace (snd (run_command c t w s)) = trace s @ [Subprocess c t]"
  by (simp add: run_command_def trace_subprocess_run)

lemma trace_is_server_running:
  "trace (snd (is_server_running w s)) = trace s @ [pgrep_call]"
  by (simp add: snd_is_server_running trace_run_command pgrep_call_def)

section \<open>Restore is refused while the server runs\<close>

lemma restore_script_not_pgrep: "RESTORE_SCRIPT cfg \<noteq> ''pgrep''"
proof
  assume a: "RESTORE_SCRIPT cfg = ''pgrep''"
  have "10 \<le> length (RESTORE_SCRIPT cfg)"
    by (simp add: RESTORE_SCRIPT_def path_join_def startswith_def)
  with a show False by simp
qed

text \<open>
  C1: a restore request that names an existing backup file, made while the probe finds
  the server process alive, is answered with status 400, whatever the query parameters;
  the only subprocess it runs is the probe itself (none at all when the file name is
  refused first), and the restore script is not run.
\<close>

theorem restore_rejected_while_running:
  assumes "exists s (path_join (BACKUP_DIR cfg) filename)"
    and "fst (is_server_running w s)"
  shows "status (fst (restore_backup cfg args w filename s)) = 400
    \<and> new_calls s (snd (restore_backup cfg args w filename s))
        = (if contains filename ''..'' \<or> contains filename ''/'' then [] else [pgrep_call])
    \<and> runs_of (RESTORE_SCRIPT cfg) (new_calls s (snd (restore_backup cfg args w filename s))) = []"
proof (cases "contains filename ''..'' \<or> contains filename ''/''")
  case True
  then show ?thesis
    by (simp add: restore_backup_def rejected_def respond_def new_calls_def runs_of_def)
next
  case False
  obtain r s1 where p: "is_server_running w s = (r, s1)"
    by (cases "is_server_running w s")
  with assms(2) have r by simp
  have t: "trace s1 = trace s @ [pgrep_call]"
    using trace_is_server_running [of w s] p by simp
  have res: "restore_backup cfg args w filename s
      = (rejected 400 ''Server running'' ''Stop the server before restoring a backup'', s1)"
    using False assms(1) p \<open>r\<close> by (simp add: restore_backup_def)
  show ?thesis
    using False restore_script_not_pgrep [of cfg]
    by (simp add: res t rejected_def respond_def new_calls_def runs_of_def pgrep_call_def)
qed

lemmas eval_defs =
  sys_of_def stat0_def exists_def default_config_def path_join_def startswith_def endswith_def
  is_server_running_def run_command_def run_script_def subprocess_run_def
  strip_def is_space_def ord_def
  rejected_def respond_def failed_def succeeded_def new_calls_def runs_of_def pgrep_call_def
  args_get_def lower_def lower_char_def

lemma foo_backup_exists: "exists (sys_of [''/terraria/backups/backup_Foo_20260101_000000.tar.gz''])
      (path_join (BACKUP_DIR default_config) ''backup_Foo_20260101_000000.tar.gz'')"
  by (simp add: eval_defs)

lemma runner_alive_running: "fst (is_server_running runner_alive s)"
  by (simp add: eval_defs runner_alive_def)

theorem restore_rejected_while_running_witness:
  "exists (sys_of [''/terraria/backups/backup_Foo_20260101_000000.tar.gz''])
      (path_join (BACKUP_DIR default_config) ''backup_Foo_20260101_000000.tar.gz'')
   \<and> fst (is_server_running runner_alive
        (sys_of [''/terraria/backups/backup_Foo_20260101_000000.tar.gz'']))
   \<and> status (fst (restore_backup default_config [''force'' \<mapsto> ''true'', ''no_backup'' \<mapsto> ''true'']
        runner_alive ''backup_Foo_20260101_000000.tar.gz''
        (sys_of [''/terraria/backups/backup_Foo_20260101_000000.tar.gz'']))) = 400
   \<and> new_calls (sys_of [''/terraria/backups/backup_Foo_20260101_000000.tar.gz''])
        (snd (restore_backup default_config [''force'' \<mapsto> ''true'', ''no_backup'' \<mapsto> ''true'']
        runner_alive ''backup_Foo_20260101_000000.tar.gz''
        (sys_of [''/terraria/backups/backup_Foo_20260101_000000.tar.gz'']))) = [pgrep_call]"
  using restore_rejected_while_running [OF foo_backup_exists runner_alive_running,
      of "[''force'' \<mapsto> ''true'', ''no_backup'' \<mapsto> ''true'']"]
    foo_backup_exists runner_alive_running [of "sys_of [''/terraria/backups/backup_Foo_20260101_000000.tar.gz'']"]
  by (simp add: startswith_def)

section \<open>What the lifecycle routes run\<close>

lemma snd_start_server:
  "snd (start_server w s) =
     (if fst (is_server_running w s) then snd (is_server_running w s)
      else snd (run_command [''supervisorctl'', ''start'', ''terraria''] 30 w
                  (snd (is_server_running w s))))"
  by (simp add: start_server_def split: prod.splits)

lemma snd_stop_server:
  "snd (stop_server w s) =
     (if fst (is_server_running w s)
      then snd (run_command [''supervisorctl'', ''stop'', ''terraria''] 30 w
                  (snd (is_server_running w s)))
      else snd (is_server_running w s))"
  by (simp add: stop_server_def split: prod.splits)

lemma snd_restart_server:
  "snd (restart_server w s) = snd (run_command [''supervisorctl'', ''restart'', ''terraria''] 30 w s)"
  by (simp add: restart_server_def split: prod.splits)

lemma run_command_ok:
  "fst (fst (run_command c t w s)) = exited_zero (outcome_of (Subprocess c t) w s)"
  by (simp add: run_command_def subprocess_run_def outcome_of_def
      split: prod.splits outcome.splits)

lemma run_command_stdout:
  "fst (snd (fst (run_command c t w s))) = stdout_of (outcome_of (Subprocess c t) w s)"
  by (simp add: run_command_def subprocess_run_def outcome_of_def
      split: prod.splits outcome.splits)

lemma start_server_response:
  "fst (start_server w s) =
     (if fst (is_server_running w s) then
        (respond 400)\<lparr>success := Some False, message := Some ''Server is already running''\<rparr>
      else
        (case fst (run_command [''supervisorctl'', ''start'', ''terraria''] 30 w
                     (snd (is_server_running w s))) of
           (ok, stdout, stderr) \<Rightarrow>
             if ok \<or> contains (lower stdout) ''already started''
             then succeeded 200 ''Server start command sent'' stdout
             else failed 500 ''Failed to start server''
                    (strip_ansi_codes (str_or stderr stdout))))"
  by (simp add: start_server_def split: prod.splits)

lemma stop_server_response:
  "fst (stop_server w s) =
     (if \<not> fst (is_server_running w s) then
        (respond 400)\<lparr>success := Some False, message := Some ''Server is not running''\<rparr>
      else
        (case fst (run_command [''supervisorctl'', ''stop'', ''terraria''] 30 w
                     (snd (is_server_running w s))) of
           (ok, stdout, stderr) \<Rightarrow>
             if ok \<or> contains (lower stdout) ''already stopped''
             then succeeded 200 ''Server stop command sent. World will be saved.'' stdout
             else failed 500 ''Failed to stop server''
                    (strip_ansi_codes (str_or stderr stdout))))"
  by (simp add: stop_server_def split: prod.splits)

lemma restart_server_response:
  "fst (restart_server w s) =
     (case fst (run_command [''supervisorctl'', ''restart'', ''terraria''] 30 w s) of
        (ok, stdout, stderr) \<Rightarrow>
          if ok
          then succeeded 200 ''Server restart command sent. Players will be disconnected.'' stdout
          else failed 500 ''Failed to restart server''
                 (strip_ansi_codes (str_or stderr stdout)))"
  by (simp add: restart_server_def split: prod.splits)

lemma start_server_status:
  "status (fst (start_server w s))
     = (if fst (is_server_running w s) then 400
        else if accepted ''already started'' (outcome_of start_call w (snd (is_server_running w s)))
        then 200 else 500)
   \<and> success (fst (start_server w s))
     = Some (\<not> fst (is_server_running w s)
             \<and> accepted ''already started'' (outcome_of start_call w (snd (is_server_running w s))))"
proof -
  obtain ok stdout stderr where
    r: "fst (run_command [''supervisorctl'', ''start'', ''terraria''] 30 w (snd (is_server_running w s)))
          = (ok, stdout, stderr)"
    by (cases "fst (run_command [''supervisorctl'', ''start'', ''terraria''] 30 w (snd (is_server_running w s)))")
  have ok: "ok = exited_zero (outcome_of start_call w (snd (is_server_running w s)))"
    using run_command_ok [of "[''supervisorctl'', ''start'', ''terraria'']" 30 w "snd (is_server_running w s)"]
    by (simp add: r start_call_def)
  have out: "stdout = stdout_of (outcome_of start_call w (snd (is_server_running w s)))"
    using run_command_stdout [of "[''supervisorctl'', ''start'', ''terraria'']" 30 w "snd (is_server_running w s)"]
    by (simp add: r start_call_def)
  show ?thesis
    by (simp add: start_server_response r accepted_def succeeded_def failed_def respond_def
        ok [symmetric] out [symmetric])
qed

lemma stop_server_status:
  "status (fst (stop_server w s))
     = (if \<not> fst (is_server_running w s) then 400
        else if accepted ''already stopped'' (outcome_of stop_call w (snd (is_server_running w s)))
        then 200 else 500)
   \<and> success (fst (stop_server w s))
     = Some (fst (is_server_running w s)
             \<and> accepted ''already stopped'' (outcome_of stop_call w (snd (is_server_running w s))))"
proof -
  obtain ok stdout stderr where
    r: "fst (run_command [''supervisorctl'', ''stop'', ''terraria''] 30 w (snd (is_server_running w s)))
          = (ok, stdout, stderr)"
    by (cases "fst (run_command [''supervisorctl'', ''stop'', ''terraria''] 30 w (snd (is_server_running w s)))")
  have ok: "ok = exited_zero (outcome_of stop_call w (snd (is_server_running w s)))"
    using run_command_ok [of "[''supervisorctl'', ''stop'', ''terraria'']" 30 w "snd (is_server_running w s)"]
    by (simp add: r stop_call_def)
  have out: "stdout = stdout_of (outcome_of stop_call w (snd (is_server_running w s)))"
    using run_command_stdout [of "[''supervisorctl'', ''stop'', ''terraria'']" 30 w "snd (is_server_running w s)"]
    by (simp add: r stop_call_def)
  show ?thesis
    by (simp add: stop_server_response r accepted_def succeeded_def failed_def respond_def
        ok [symmetric] out [symmetric])
qed

lemma restart_server_status:
  "status (fst (restart_server w s))
     = (if exited_zero (outcome_of restart_call w s) then 200 else 500)
   \<and> success (fst (restart_server w s)) = Some (exited_zero (outcome_of restart_call w s))"
proof -
  obtain ok stdout stderr where
    r: "fst (run_command [''supervisorctl'', ''restart'', ''terraria''] 30 w s)
          = (ok, stdout, stderr)"
    by (cases "fst (run_command [''supervisorctl'', ''restart'', ''terraria''] 30 w s)")
  have ok: "ok = exited_zero (outcome_of restart_call w s)"
    using run_command_ok [of "[''supervisorctl'', ''restart'', ''terraria'']" 30 w "s"]
    by (simp add: r restart_call_def)
  have out: "stdout = stdout_of (outcome_of restart_call w s)"
    using run_command_stdout [of "[''supervisorctl'', ''restart'', ''terraria'']" 30 w "s"]
    by (simp add: r restart_call_def)
  show ?thesis
    by (simp add: restart_server_response r accepted_def succeeded_def failed_def respond_def
        ok [symmetric] out [symmetric])
qed

text \<open>
  C3, as amended: start and stop probe the process table once, before the daemon
  command, and run nothing after the command; restart runs its command with no probe
  at all. The outcome is reported from what the command returned: start answers 400
  when the probe found the server running, stop when it did not, and no command is
  sent; otherwise the answer is 200 with success when the command exited with return
  code 0 (for start and stop also when its output holds \<open>already started\<close> or
  \<open>already stopped\<close>, in any case of letters), and else 500 with failure.
\<close>

theorem lifecycle_probes_before_command_only:
  "new_calls s (snd (start_server w s))
     = (if fst (is_server_running w s) then [pgrep_call] else [pgrep_call, start_call])
   \<and> new_calls s (snd (stop_server w s))
     = (if fst (is_server_running w s) then [pgrep_call, stop_call] else [pgrep_call])
   \<and> new_calls s (snd (restart_server w s)) = [restart_call]
   \<and> status (fst (start_server w s))
     = (if fst (is_server_running w s) then 400
        else if accepted ''already started'' (outcome_of start_call w (snd (is_server_running w s)))
        then 200 else 500)
   \<and> success (fst (start_server w s))
     = Some (\<not> fst (is_server_running w s)
             \<and> accepted ''already started'' (outcome_of start_call w (snd (is_server_running w s))))
   \<and> status (fst (stop_server w s))
     = (if \<not> fst (is_server_running w s) then 400
        else if accepted ''already stopped'' (outcome_of stop_call w (snd (is_server_running w s)))
        then 200 else 500)
   \<and> success (fst (stop_server w s))
     = Some (fst (is_server_running w s)
             \<and> accepted ''already stopped'' (outcome_of stop_call w (snd (is_server_running w s))))
   \<and> status (fst (restart_server w s))
     = (if exited_zero (outcome_of restart_call w s) then 200 else 500)
   \<and> success (fst (restart_server w s)) = Some (exited_zero (outcome_of restart_call w s))"
proof -
  have "new_calls s (snd (start_server w s))
     = (if fst (is_server_running w s) then [pgrep_call] else [pgrep_call, start_call])"
    by (simp add: new_calls_def snd_start_server trace_run_command trace_is_server_running
        start_call_def)
  moreover have "new_calls s (snd (stop_server w s))
     = (if fst (is_server_running w s) then [pgrep_call, stop_call] else [pgrep_call])"
    by (simp add: new_calls_def snd_stop_server trace_run_command trace_is_server_running
        stop_call_def)
  moreover have "new_calls s (snd (restart_server w s)) = [restart_call]"
    by (simp add: new_calls_def snd_restart_server trace_run_command restart_call_def)
  ultimately show ?thesis
    using start_server_status [of w s] stop_server_status [of w s] restart_server_status [of w s]
    by (simp only: simp_thms)
qed

text \<open>With the server stopped and a daemon command that exits with code 7, start answers 500.\<close>

lemma start_refused_eval:
  "status (fst (start_server runner_refuses (sys_of []))) = 500
   \<and> success (fst (start_server runner_refuses (sys_of []))) = Some False"
  by (simp add: start_server_def eval_defs runner_refuses_def start_call_def char_of_def
      bit_Suc_0_iff)

text \<open>
  The claim as stated fails: with the server stopped, start sends its command, reports
  success, and never probes again.
\<close>

lemma start_stopped_eval:
  "start_server runner_stopped (sys_of []) =
     (succeeded 200 ''Server start command sent'' ''terraria: started'',
      (sys_of [])\<lparr>trace := [pgrep_call, start_call]\<rparr>)"
  by (simp add: start_server_def eval_defs runner_stopped_def start_call_def)

theorem start_without_reprobe_counterexample:
  "status (fst (start_server runner_stopped (sys_of []))) = 200
   \<and> start_call \<in> set (trace (snd (start_server runner_stopped (sys_of []))))
   \<and> \<not> probed_after start_call (trace (snd (start_server runner_stopped (sys_of []))))"
  by (simp add: start_stopped_eval probed_after_def succeeded_def respond_def
      pgrep_call_def start_call_def)


section \<open>World creation is decided by the filesystem\<close>

text \<open>
  C2: once a creation request has passed validation (a body with a name that is not
  empty, also after sanitization, and no world file of that name yet), the route ends
  in the state the script run left, and reports 201 and success exactly when the world
  file exists in that state, whatever the script returned; otherwise it reports 500.
\<close>

theorem create_world_file_decides:
  assumes "b_name d = Some n" and "n \<noteq> []" and "sanitize n \<noteq> []"
    and "\<not> exists s (world_path cfg (sanitize n))"
  shows "snd (create_world cfg (Some d) w s)
      = snd (run_script (WORLD_MANAGER_SCRIPT cfg) [''create-auto''] 300 w s)
    \<and> status (fst (create_world cfg (Some d) w s))
      = (if exists (snd (create_world cfg (Some d) w s)) (world_path cfg (sanitize n))
         then 201 else 500)
    \<and> success (fst (create_world cfg (Some d) w s))
      = Some (exists (snd (create_world cfg (Some d) w s)) (world_path cfg (sanitize n)))"
proof -
  obtain r s1 where run: "run_script (WORLD_MANAGER_SCRIPT cfg) [''create-auto''] 300 w s = (r, s1)"
    by (cases "run_script (WORLD_MANAGER_SCRIPT cfg) [''create-auto''] 300 w s")
  obtain ok stdout stderr where r: "r = (ok, stdout, stderr)"
    by (cases r)
  have nd: "\<not> no_data (Some d)"
    using assms(1) by (simp add: no_data_def)
  show ?thesis
  proof (cases "exists s1 (world_path cfg (sanitize n))")
    case True
    then obtain info where "get_file_info s1 (world_path cfg (sanitize n)) = Inr (Some info)"
      using get_file_info_exists by blast
    with True assms nd show ?thesis
      by (simp add: create_world_def Let_def run r respond_def)
  next
    case False
    with assms nd show ?thesis
      by (simp add: create_world_def Let_def run r failed_def respond_def)
  qed
qed

lemma alpha_world_absent: "\<not> exists (sys_of [''/terraria/scripts/world-manager.sh''])
    (world_path default_config (sanitize ''Alpha''))"
  by (simp add: eval_defs world_path_def sanitize_def name_char_def)

lemma alpha_sanitized: "sanitize ''Alpha'' \<noteq> []"
  by (simp add: sanitize_def name_char_def ord_def)

lemma body_alpha_name: "b_name body_alpha = Some ''Alpha''"
  by (simp add: body_alpha_def)

lemma run_creates_alpha:
  "exists (snd (run_script (WORLD_MANAGER_SCRIPT default_config) [''create-auto''] 300
       (runner_creates ''/terraria/worlds/Alpha.wld'' 1)
       (sys_of [''/terraria/scripts/world-manager.sh''])))
     (world_path default_config (sanitize ''Alpha''))
   \<and> \<not> fst (fst (run_script (WORLD_MANAGER_SCRIPT default_config) [''create-auto''] 300
       (runner_creates ''/terraria/worlds/Alpha.wld'' 1)
       (sys_of [''/terraria/scripts/world-manager.sh''])))"
  by (simp add: eval_defs world_path_def sanitize_def name_char_def WORLD_MANAGER_SCRIPT_def
      runner_creates_def)

lemma run_exits_alpha:
  "\<not> exists (snd (run_script (WORLD_MANAGER_SCRIPT default_config) [''create-auto''] 300
       (runner_exits 0) (sys_of [''/terraria/scripts/world-manager.sh''])))
     (world_path default_config (sanitize ''Alpha''))
   \<and> fst (fst (run_script (WORLD_MANAGER_SCRIPT default_config) [''create-auto''] 300
       (runner_exits 0) (sys_of [''/terraria/scripts/world-manager.sh''])))"
  by (simp add: eval_defs world_path_def sanitize_def name_char_def WORLD_MANAGER_SCRIPT_def
      runner_exits_def)

theorem create_world_file_decides_witness:
  "b_name body_alpha = Some ''Alpha'' \<and> ''Alpha'' \<noteq> [] \<and> sanitize ''Alpha'' \<noteq> []
   \<and> \<not> exists (sys_of [''/terraria/scripts/world-manager.sh''])
        (world_path default_config (sanitize ''Alpha''))
   \<and> \<not> fst (fst (run_script (WORLD_MANAGER_SCRIPT default_config) [''create-auto''] 300
       (runner_creates ''/terraria/worlds/Alpha.wld'' 1)
       (sys_of [''/terraria/scripts/world-manager.sh''])))
   \<and> status (fst (create_world default_config (Some body_alpha)
        (runner_creates ''/terraria/worlds/Alpha.wld'' 1)
        (sys_of [''/terraria/scripts/world-manager.sh'']))) = 201
   \<and> fst (fst (run_script (WORLD_MANAGER_SCRIPT default_config) [''create-auto''] 300
       (runner_exits 0) (sys_of [''/terraria/scripts/world-manager.sh''])))
   \<and> status (fst (create_world default_config (Some body_alpha) (runner_exits 0)
        (sys_of [''/terraria/scripts/world-manager.sh'']))) = 500"
  using create_world_file_decides [OF body_alpha_name _ alpha_sanitized alpha_world_absent,
      of "runner_creates ''/terraria/worlds/Alpha.wld'' 1"]
    create_world_file_decides [OF body_alpha_name _ alpha_sanitized alpha_world_absent, of "runner_exits 0"]
    alpha_world_absent alpha_sanitized body_alpha_name run_creates_alpha run_exits_alpha
  by simp

section \<open>Confirmation of deletions\<close>

text \<open>
  C7: deleting an existing world with a confirmation parameter that differs from the
  world's sanitized name (an absent parameter counts as the empty string) is answered
  with status 400, and the system, the world file included, is left as it was.
\<close>

theorem delete_world_needs_own_name:
  assumes "exists s (world_path cfg (sanitize name0))"
    and "args_get args ''confirm'' [] \<noteq> sanitize name0"
  shows "status (fst (delete_world cfg args w name0 s)) = 400
    \<and> error (fst (delete_world cfg args w name0 s)) = Some ''Confirmation required''
    \<and> snd (delete_world cfg args w name0 s) = s"
  using assms by (simp add: delete_world_def Let_def rejected_def respond_def)

lemma alpha_world_exists: "exists (sys_of [''/terraria/worlds/Alpha.wld''])
    (world_path default_config (sanitize ''Alpha''))"
  by (simp add: eval_defs world_path_def sanitize_def name_char_def)

lemma confirm_true_not_alpha: "args_get [''confirm'' \<mapsto> ''true''] ''confirm'' [] \<noteq> sanitize ''Alpha''"
  by (simp add: eval_defs sanitize_def name_char_def)

theorem delete_world_needs_own_name_witness:
  "exists (sys_of [''/terraria/worlds/Alpha.wld'']) (world_path default_config (sanitize ''Alpha''))
   \<and> args_get [''confirm'' \<mapsto> ''true''] ''confirm'' [] \<noteq> sanitize ''Alpha''
   \<and> status (fst (delete_world default_config [''confirm'' \<mapsto> ''true''] runner_alive ''Alpha''
        (sys_of [''/terraria/worlds/Alpha.wld'']))) = 400
   \<and> files (snd (delete_world default_config [''confirm'' \<mapsto> ''true''] runner_alive ''Alpha''
        (sys_of [''/terraria/worlds/Alpha.wld'']))) ''/terraria/worlds/Alpha.wld'' = Some stat0"
  using delete_world_needs_own_name [OF alpha_world_exists confirm_true_not_alpha, of runner_alive] alpha_world_exists confirm_true_not_alpha
  by (simp add: sys_of_def)


text \<open>
  C8, as amended: deleting an existing backup file whose confirmation token, in lower
  case, differs from \<open>true\<close> (an absent token counts as \<open>false\<close>) is answered with
  status 400, and the system, the file included, is left as it was.
\<close>

theorem delete_backup_needs_confirmation:
  assumes "exists s (path_join (BACKUP_DIR cfg) filename)"
    and "lower (args_get args ''confirm'' ''false'') \<noteq> ''true''"
  shows "status (fst (delete_backup cfg args filename s)) = 400
    \<and> snd (delete_backup cfg args filename s) = s"
  using assms by (simp add: delete_backup_def Let_def rejected_def respond_def)

lemma confirm_yes_not_true: "lower (args_get [''confirm'' \<mapsto> ''yes''] ''confirm'' ''false'') \<noteq> ''true''"
  by (simp add: eval_defs)

theorem delete_backup_needs_confirmation_witness:
  "exists (sys_of [''/terraria/backups/backup_Foo_20260101_000000.tar.gz''])
      (path_join (BACKUP_DIR default_config) ''backup_Foo_20260101_000000.tar.gz'')
   \<and> lower (args_get [''confirm'' \<mapsto> ''yes''] ''confirm'' ''false'') \<noteq> ''true''
   \<and> status (fst (delete_backup default_config [''confirm'' \<mapsto> ''yes'']
        ''backup_Foo_20260101_000000.tar.gz''
        (sys_of [''/terraria/backups/backup_Foo_20260101_000000.tar.gz'']))) = 400
   \<and> snd (delete_backup default_config [''confirm'' \<mapsto> ''yes'']
        ''backup_Foo_20260101_000000.tar.gz''
        (sys_of [''/terraria/backups/backup_Foo_20260101_000000.tar.gz'']))
      = sys_of [''/terraria/backups/backup_Foo_20260101_000000.tar.gz'']"
  using delete_backup_needs_confirmation [OF foo_backup_exists confirm_yes_not_true] foo_backup_exists confirm_yes_not_true
  by simp

text \<open>
  The claim as stated fails: the token \<open>TRUE\<close> is not the literal \<open>true\<close>, and the
  file is removed.
\<close>

theorem delete_backup_upper_case_counterexample:
  "''TRUE'' \<noteq> ''true''
   \<and> exists (sys_of [''/terraria/backups/backup_Foo_20260101_000000.tar.gz''])
      ''/terraria/backups/backup_Foo_20260101_000000.tar.gz''
   \<and> status (fst (delete_backup default_config [''confirm'' \<mapsto> ''TRUE'']
        ''backup_Foo_20260101_000000.tar.gz''
        (sys_of [''/terraria/backups/backup_Foo_20260101_000000.tar.gz'']))) = 200
   \<and> \<not> exists (snd (delete_backup default_config [''confirm'' \<mapsto> ''TRUE'']
        ''backup_Foo_20260101_000000.tar.gz''
        (sys_of [''/terraria/backups/backup_Foo_20260101_000000.tar.gz''])))
      ''/terraria/backups/backup_Foo_20260101_000000.tar.gz''"
  by (simp add: delete_backup_def os_remove_def eval_defs Let_def char_of_def bit_Suc_0_iff)

section \<open>The float of an integer\<close>

lemma bit_length_ge: "0 < a \<Longrightarrow> 2 ^ (bit_length a - 1) \<le> a"
proof (induction a rule: bit_length.induct)
  case (1 n)
  show ?case
  proof (cases "n div 2 = 0")
    case True
    with "1.prems" show ?thesis
      by (simp add: bit_length.simps [of n] bit_length.simps [of 0])
  next
    case False
    then have pos: "0 < n div 2" by simp
    with "1.prems" "1.IH" have ih: "2 ^ (bit_length (n div 2) - 1) \<le> n div 2" by simp
    have "0 < bit_length (n div 2)"
      using pos by (simp add: bit_length.simps [of "n div 2"])
    then have "bit_length n - 1 = Suc (bit_length (n div 2) - 1)"
      using "1.prems" by (simp add: bit_length.simps [of n])
    then have "(2::nat) ^ (bit_length n - 1) = 2 * 2 ^ (bit_length (n div 2) - 1)" by simp
    also have "\<dots> \<le> 2 * (n div 2)" using ih by simp
    also have "\<dots> \<le> n" by simp
    finally show ?thesis .
  qed
qed

lemma bit_length_gt: "a < 2 ^ bit_length a"
proof (induction a rule: bit_length.induct)
  case (1 n)
  show ?case
  proof (cases "n = 0")
    case True
    then show ?thesis by simp
  next
    case False
    with "1.IH" have "n div 2 < 2 ^ bit_length (n div 2)" by simp
    then have "n < 2 * 2 ^ bit_length (n div 2)" by linarith
    with False show ?thesis by (simp add: bit_length.simps [of n])
  qed
qed

lemma float_of_int_exact: "\<bar>i\<bar> < 2 ^ 53 \<Longrightarrow> float_of_int i = Inr (of_int i)"
  by (simp add: float_of_int_def nat_less_iff)

lemma float_of_int_large:
  assumes "2 ^ 53 \<le> \<bar>i\<bar>" and "float_of_int i = Inr x"
  shows "2 ^ 52 \<le> \<bar>x\<bar>"
proof -
  define a where "a = nat \<bar>i\<bar>"
  define e where "e = bit_length a - 53"
  define q where "q = a div 2 ^ e"
  define q' where "q' = (if 2 ^ (e - 1) < a mod 2 ^ e \<or> (a mod 2 ^ e = 2 ^ (e - 1) \<and> odd q) then q + 1 else q)"
  have a: "2 ^ 53 \<le> a" using assms(1) by (simp add: a_def le_nat_iff)
  then have na: "\<not> a < 2 ^ 53" by simp
  have x: "x = of_int (sgn i) * of_nat (q' * 2 ^ e)"
    using assms(2) na
    unfolding float_of_int_def Let_def a_def [symmetric] e_def [symmetric] q_def [symmetric]
      q'_def [symmetric]
    by (simp split: if_splits)
  have "0 < a" using a by (simp add: less_le_trans [of 0 "2 ^ 53"])
  then have ge: "2 ^ (bit_length a - 1) \<le> a" by (rule bit_length_ge)
  have "53 < bit_length a"
  proof (rule ccontr)
    assume "\<not> 53 < bit_length a"
    then have "(2::nat) ^ bit_length a \<le> 2 ^ 53" by (intro power_increasing) simp_all
    with bit_length_gt [of a] a show False by simp
  qed
  then have "bit_length a - 1 = 52 + e" by (simp add: e_def)
  with ge have "2 ^ 52 * 2 ^ e \<le> a" by (simp add: power_add)
  then have "2 ^ 52 \<le> q" by (simp add: q_def less_eq_div_iff_mult_less_eq)
  moreover have "q \<le> q'" by (simp add: q'_def)
  moreover have "q' \<le> q' * 2 ^ e" by simp
  ultimately have n: "2 ^ 52 \<le> q' * 2 ^ e" by (meson order_trans)
  have "i \<noteq> 0" using assms(1) by auto
  then have "\<bar>x\<bar> = of_nat (q' * 2 ^ e)"
    by (simp add: x abs_mult sgn_if del: of_nat_mult)
  also have "(2::rat) ^ 52 \<le> of_nat (q' * 2 ^ e)"
    using n of_nat_mono [of "2 ^ 52" "q' * 2 ^ e", where ?'a = rat] by simp
  finally show ?thesis by simp
qed

text \<open>The first test of the loop sees the integer, the later ones its float.\<close>

lemma format_loop_int:
  assumes "float_of_int i = Inr x"
  shows "format_loop us fin (PyInt i) = format_loop us fin (PyFloat x)"
proof (cases "\<bar>i\<bar> < 2 ^ 53")
  case True
  with assms have "x = of_int i" by (simp add: float_of_int_exact)
  with assms show ?thesis by (cases us) simp_all
next
  case False
  then have big: "2 ^ 53 \<le> \<bar>i\<bar>" by simp
  then have "2 ^ 52 \<le> \<bar>x\<bar>" using assms by (rule float_of_int_large)
  then have "\<not> \<bar>x\<bar> < 1024" by simp
  moreover have "\<not> \<bar>rat_of_int i\<bar> < 1024"
  proof -
    have "(1024::int) \<le> \<bar>i\<bar>" using big by simp
    then have "rat_of_int 1024 \<le> rat_of_int \<bar>i\<bar>" by (simp only: of_int_le_iff)
    then show ?thesis by simp
  qed
  ultimately show ?thesis using assms by (cases us) simp_all
qed

lemma format_loop_unit:
  assumes "k \<le> length us" and "k = 0 \<or> 1024 ^ k \<le> \<bar>y\<bar>"
    and "k = length us \<or> \<bar>y\<bar> < 1024 ^ (k + 1)"
  shows "format_loop us fin (PyFloat y) = Inr (fmt1 (y / 1024 ^ k) @ (us @ [fin]) ! k)"
  using assms
proof (induction us arbitrary: y k)
  case Nil
  then show ?case by simp
next
  case (Cons u us)
  show ?case
  proof (cases k)
    case 0
    with Cons.prems show ?thesis by simp
  next
    case (Suc j)
    with Cons.prems have lo: "1024 * 1024 ^ j \<le> \<bar>y\<bar>" by simp
    have "(1024::rat) \<le> 1024 * 1024 ^ j" by simp
    with lo have n: "\<not> \<bar>y\<bar> < 1024" by linarith
    have a: "j \<le> length us" using Cons.prems(1) Suc by simp
    have b: "j = 0 \<or> 1024 ^ j \<le> \<bar>y / 1024\<bar>" using lo by simp
    have c: "j = length us \<or> \<bar>y / 1024\<bar> < 1024 ^ (j + 1)"
      using Cons.prems(3) Suc by auto
    have "format_loop us fin (PyFloat (y / 1024))
        = Inr (fmt1 (y / 1024 / 1024 ^ j) @ (us @ [fin]) ! j)"
      using a b c by (rule Cons.IH)
    with n Suc show ?thesis by simp
  qed
qed

text \<open>A loop with one more unit agrees with the shorter one on values its units cover.\<close>

lemma format_loop_longer:
  "\<bar>y\<bar> < 1024 ^ (length us + 1)
   \<Longrightarrow> format_loop (us @ [u]) fin (PyFloat y) = format_loop us u (PyFloat y)"
proof (induction us arbitrary: y)
  case Nil
  then show ?case by simp
next
  case (Cons a us)
  then have "\<bar>y / 1024\<bar> < 1024 ^ (length us + 1)" by simp
  then have "format_loop (us @ [u]) fin (PyFloat (y / 1024)) = format_loop us u (PyFloat (y / 1024))"
    by (rule Cons.IH)
  then show ?case by simp
qed

section \<open>Human-readable sizes\<close>

lemma floor_numeral_quotient:
  "\<lfloor>numeral a / numeral b :: rat\<rfloor> = numeral a div numeral b"
  using floor_divide_of_int_eq [of "numeral a" "numeral b", where ?'a = rat] by simp

lemmas fmt_eval =
  fmt1_def round_half_even_def Let_def digit_char_def floor_numeral_quotient
  str_nat.simps [of 0] str_nat.simps [of "Suc 0"] str_nat.simps [of "numeral n" for n]

lemma format_bytes_float:
  assumes "float_of_int sz = Inr x"
  shows "format_bytes sz = format_loop [''B'', ''KB'', ''MB'', ''GB'', ''TB''] ''PB'' (PyFloat x)"
    and "logs_format_bytes sz = format_loop [''B'', ''KB'', ''MB'', ''GB''] ''TB'' (PyFloat x)"
  by (simp_all only: format_bytes_def logs_format_bytes_def format_loop_int [OF assms])

lemma format_bytes_unit:
  assumes "float_of_int sz = Inr x" and "k \<le> 5" and "k = 0 \<or> 1024 ^ k \<le> \<bar>x\<bar>"
    and "\<bar>x\<bar> < 1024 ^ (k + 1)"
  shows "format_bytes sz
    = Inr (fmt1 (x / 1024 ^ k) @ [''B'', ''KB'', ''MB'', ''GB'', ''TB'', ''PB''] ! k)"
proof -
  have "format_loop [''B'', ''KB'', ''MB'', ''GB'', ''TB''] ''PB'' (PyFloat x)
      = Inr (fmt1 (x / 1024 ^ k) @ ([''B'', ''KB'', ''MB'', ''GB'', ''TB''] @ [''PB'']) ! k)"
    using assms(2-4) by (intro format_loop_unit) simp_all
  then show ?thesis using assms(1) by (simp add: format_bytes_float)
qed

lemma format_bytes_0: "format_bytes 0 = Inr ''0.0B''"
  by (simp add: format_bytes_def float_of_int_def fmt_eval)

lemma format_bytes_1536: "format_bytes 1536 = Inr ''1.5KB''"
  by (simp add: format_bytes_def float_of_int_def fmt_eval)

lemma format_bytes_gib: "format_bytes 1073741824 = Inr ''1.0GB''"
  by (simp add: format_bytes_def float_of_int_def fmt_eval)

lemma format_bytes_1280: "format_bytes 1280 = Inr ''1.2KB''"
  by (simp add: format_bytes_def float_of_int_def fmt_eval)

lemma format_bytes_1023: "format_bytes 1023 = Inr ''1023.0B''"
  by (simp add: format_bytes_def float_of_int_def fmt_eval)

text \<open>
  C9: \<open>format_bytes\<close> divides by 1024 from unit to unit over B, KB, MB, GB, TB, PB and
  prints the value with one decimal at the first unit where its magnitude is below
  1024: for a size whose float is \<open>x\<close> and the index \<open>k\<close> of that unit, the result is
  \<open>x / 1024 ^ k\<close> to one decimal followed by the unit. In particular 0 gives \<open>0.0B\<close>,
  1536 gives \<open>1.5KB\<close> and 1073741824 gives \<open>1.0GB\<close>.
\<close>

theorem format_bytes_first_unit:
  "(\<forall>sz x k. float_of_int sz = Inr x \<longrightarrow> k \<le> 5 \<longrightarrow> (k = 0 \<or> 1024 ^ k \<le> \<bar>x\<bar>)
       \<longrightarrow> \<bar>x\<bar> < 1024 ^ (k + 1)
       \<longrightarrow> format_bytes sz
           = Inr (fmt1 (x / 1024 ^ k) @ [''B'', ''KB'', ''MB'', ''GB'', ''TB'', ''PB''] ! k))
   \<and> format_bytes 0 = Inr ''0.0B''
   \<and> format_bytes 1536 = Inr ''1.5KB''
   \<and> format_bytes 1073741824 = Inr ''1.0GB''"
  using format_bytes_unit format_bytes_0 format_bytes_1536 format_bytes_gib by blast

lemma float_2048: "float_of_int 2048 = Inr 2048"
  by (simp add: float_of_int_def)

theorem format_bytes_first_unit_witness:
  "float_of_int 2048 = Inr 2048 \<and> (1::nat) \<le> 5 \<and> 1024 ^ 1 \<le> \<bar>2048 :: rat\<bar>
   \<and> \<bar>2048 :: rat\<bar> < 1024 ^ (1 + 1)
   \<and> format_bytes 2048 = Inr ''2.0KB''"
proof -
  have "format_bytes 2048
      = Inr (fmt1 (2048 / 1024 ^ 1) @ [''B'', ''KB'', ''MB'', ''GB'', ''TB'', ''PB''] ! 1)"
    using format_bytes_first_unit [THEN conjunct1, rule_format, of 2048 2048 1] float_2048
    by simp
  then show ?thesis
    using float_2048 by (simp add: fmt_eval)
qed

lemma format_bytes_agree:
  assumes "\<bar>n\<bar> < 1024 ^ 5"
  shows "format_bytes n = logs_format_bytes n"
proof -
  have "\<bar>n\<bar> < 2 ^ 53" using assms by simp
  then have f: "float_of_int n = Inr (of_int n)" by (rule float_of_int_exact)
  have "\<bar>rat_of_int n\<bar> < 1024 ^ 5"
    using assms of_int_less_iff [of "\<bar>n\<bar>" "1024 ^ 5", where ?'a = rat] by simp
  then have "format_loop ([''B'', ''KB'', ''MB'', ''GB''] @ [''TB'']) ''PB'' (PyFloat (of_int n))
      = format_loop [''B'', ''KB'', ''MB'', ''GB''] ''TB'' (PyFloat (of_int n))"
    by (intro format_loop_longer) simp
  then show ?thesis by (simp add: format_bytes_float [OF f])
qed

lemma format_bytes_differ:
  assumes "1024 ^ 5 \<le> n" and "float_of_int n = Inr x"
  shows "format_bytes n = Inr (fmt1 (x / 1024 ^ 5) @ ''PB'')"
    and "logs_format_bytes n = Inr (fmt1 (x / 1024 ^ 4) @ ''TB'')"
    and "format_bytes n \<noteq> logs_format_bytes n"
proof -
  have x: "1024 ^ 5 \<le> \<bar>x\<bar>"
  proof (cases "\<bar>n\<bar> < 2 ^ 53")
    case True
    with assms(2) have "x = of_int n" by (simp add: float_of_int_exact)
    moreover have "rat_of_int (1024 ^ 5) \<le> rat_of_int n"
      using assms(1) by (simp only: of_int_le_iff)
    ultimately show ?thesis by simp
  next
    case False
    then have "2 ^ 53 \<le> \<bar>n\<bar>" by simp
    then have "2 ^ 52 \<le> \<bar>x\<bar>" using assms(2) by (rule float_of_int_large)
    then show ?thesis by simp
  qed
  have "format_loop [''B'', ''KB'', ''MB'', ''GB'', ''TB''] ''PB'' (PyFloat x)
      = Inr (fmt1 (x / 1024 ^ 5) @ ([''B'', ''KB'', ''MB'', ''GB'', ''TB''] @ [''PB'']) ! 5)"
    using x by (intro format_loop_unit) simp_all
  then show a: "format_bytes n = Inr (fmt1 (x / 1024 ^ 5) @ ''PB'')"
    using assms(2) by (simp add: format_bytes_float)
  have "(1024::rat) ^ 4 \<le> 1024 ^ 5" by simp
  with x have "1024 ^ 4 \<le> \<bar>x\<bar>" by linarith
  then have "format_loop [''B'', ''KB'', ''MB'', ''GB''] ''TB'' (PyFloat x)
      = Inr (fmt1 (x / 1024 ^ 4) @ ([''B'', ''KB'', ''MB'', ''GB''] @ [''TB'']) ! 4)"
    by (intro format_loop_unit) simp_all
  then show b: "logs_format_bytes n = Inr (fmt1 (x / 1024 ^ 4) @ ''TB'')"
    using assms(2) by (simp add: format_bytes_float)
  show "format_bytes n \<noteq> logs_format_bytes n"
    by (simp add: a b)
qed

lemma format_bytes_pib: "format_bytes (1024 ^ 5) = Inr ''1.0PB''"
  by (simp add: format_bytes_def float_of_int_def fmt_eval)

lemma logs_format_bytes_pib: "logs_format_bytes (1024 ^ 5) = Inr ''1024.0TB''"
  by (simp add: logs_format_bytes_def float_of_int_def fmt_eval)

text \<open>
  C10: the formatter of \<open>utils.py\<close> and the one of \<open>logs_routes.py\<close> give the same
  string for every size from 0 up to, but not including, \<open>1024 ^ 5\<close>. At \<open>1024 ^ 5\<close>
  they give \<open>1.0PB\<close> and \<open>1024.0TB\<close>, and they differ at every larger size that
  converts to a float at all.
\<close>

theorem format_bytes_definitions_agree:
  "(\<forall>n. 0 \<le> n \<longrightarrow> n < 1024 ^ 5 \<longrightarrow> format_bytes n = logs_format_bytes n)
   \<and> format_bytes (1024 ^ 5) = Inr ''1.0PB''
   \<and> logs_format_bytes (1024 ^ 5) = Inr ''1024.0TB''
   \<and> (\<forall>n x. 1024 ^ 5 \<le> n \<longrightarrow> float_of_int n = Inr x
        \<longrightarrow> format_bytes n \<noteq> logs_format_bytes n)"
proof -
  have "format_bytes n = logs_format_bytes n" if "0 \<le> n" "n < 1024 ^ 5" for n
    using that by (intro format_bytes_agree) simp
  then show ?thesis
    using format_bytes_differ(3) format_bytes_pib logs_format_bytes_pib by blast
qed

lemma logs_format_bytes_1536: "logs_format_bytes 1536 = Inr ''1.5KB''"
  by (simp add: logs_format_bytes_def float_of_int_def fmt_eval)

lemma float_2pib: "float_of_int (2 * 1024 ^ 5) = Inr (2 * 1024 ^ 5)"
  by (simp add: float_of_int_def)

theorem format_bytes_definitions_agree_witness:
  "(0::int) \<le> 1536 \<and> (1536::int) < 1024 ^ 5 \<and> format_bytes 1536 = Inr ''1.5KB''
   \<and> logs_format_bytes 1536 = Inr ''1.5KB''
   \<and> (1024::int) ^ 5 \<le> 2 * 1024 ^ 5 \<and> float_of_int (2 * 1024 ^ 5) = Inr (2 * 1024 ^ 5)
   \<and> format_bytes (2 * 1024 ^ 5) \<noteq> logs_format_bytes (2 * 1024 ^ 5)"
proof -
  have "format_bytes 1536 = logs_format_bytes 1536"
    using format_bytes_definitions_agree [THEN conjunct1, rule_format, of 1536] by simp
  moreover have "format_bytes (2 * 1024 ^ 5) \<noteq> logs_format_bytes (2 * 1024 ^ 5)"
    using format_bytes_definitions_agree [THEN conjunct2, THEN conjunct2, THEN conjunct2,
        rule_format, of "2 * 1024 ^ 5" "2 * 1024 ^ 5"] float_2pib
    by simp
  ultimately show ?thesis
    using logs_format_bytes_1536 float_2pib by simp
qed

section \<open>Parsing backup names\<close>

lemmas parse_eval =
  parse_backup_filename_def match_tail_def at_end_def is_digit_def startswith_def ord_def
  Let_def backup_filename_def

lemma parse_example:
  "parse_backup_filename ''backup_MyWorld_20260128_120000.tar.gz''
     = Some \<lparr>world_name = ''MyWorld'', date = ''20260128'', time = ''120000''\<rparr>"
  by (simp add: parse_eval)

lemma parse_greedy_example:
  "parse_backup_filename ''backup_a_11112222_333333_20260128_120000.tar''
     = Some \<lparr>world_name = ''a_11112222_333333'', date = ''20260128'', time = ''120000''\<rparr>"
  by (simp add: parse_eval)

lemma parse_reject_example:
  "parse_backup_filename ''backup_MyWorld_2026_120000.tar.gz'' = None"
  by (simp add: parse_eval)

text \<open>
  C5 fails on a name that ends in a newline: the parser accepts
  \<open>backup_a_20260101_000000.tar\<close> followed by a newline, since \<open>$\<close> also matches
  before a final newline, and the parts it extracts give the name back with neither
  suffix.
\<close>

theorem parse_accepts_trailing_newline:
  "parse_backup_filename (''backup_a_20260101_000000.tar'' @ [CHR 0x0A])
     = Some \<lparr>world_name = ''a'', date = ''20260101'', time = ''000000''\<rparr>
   \<and> backup_filename \<lparr>world_name = ''a'', date = ''20260101'', time = ''000000''\<rparr> ''.tar''
       \<noteq> ''backup_a_20260101_000000.tar'' @ [CHR 0x0A]
   \<and> backup_filename \<lparr>world_name = ''a'', date = ''20260101'', time = ''000000''\<rparr> ''.tar.gz''
       \<noteq> ''backup_a_20260101_000000.tar'' @ [CHR 0x0A]"
  by (simp add: parse_eval)


lemma match_world_Some:
  "match_world n body = Some (w, d, t)
   \<Longrightarrow> \<exists>k. 0 < k \<and> k \<le> n \<and> w = take k body \<and> match_tail (drop k body) = Some (d, t)"
proof (induction n)
  case 0
  then show ?case by simp
next
  case (Suc n)
  show ?case
  proof (cases "match_tail (drop (Suc n) body)")
    case None
    with Suc.prems have "match_world n body = Some (w, d, t)" by simp
    then obtain k where "0 < k" "k \<le> n" "w = take k body" "match_tail (drop k body) = Some (d, t)"
      using Suc.IH by blast
    then show ?thesis by (intro exI [of _ k]) simp
  next
    case (Some dt)
    with Suc.prems have "w = take (Suc n) body" "dt = (d, t)"
      by (auto split: prod.splits)
    with Some show ?thesis by (intro exI [of _ "Suc n"]) simp
  qed
qed

lemma split_tail:
  "r = take 1 r @ take 8 (drop 1 r) @ take 1 (drop 9 r) @ take 6 (drop 10 r)
       @ take 4 (drop 16 r) @ drop 20 r"
proof -
  have "drop 16 r = take 4 (drop 16 r) @ drop 20 r"
    using append_take_drop_id [of 4 "drop 16 r"] by simp
  moreover have "drop 10 r = take 6 (drop 10 r) @ drop 16 r"
    using append_take_drop_id [of 6 "drop 10 r"] by simp
  moreover have "drop 9 r = take 1 (drop 9 r) @ drop 10 r"
    using append_take_drop_id [of 1 "drop 9 r"] by simp
  moreover have "drop 1 r = take 8 (drop 1 r) @ drop 9 r"
    using append_take_drop_id [of 8 "drop 1 r"] by simp
  moreover have "r = take 1 r @ drop 1 r" by simp
  ultimately show ?thesis by metis
qed

lemma optional_gz:
  assumes "(startswith x ''.gz'' \<and> at_end (drop 3 x)) \<or> at_end x"
  shows "x = [] \<or> x = [CHR 0x0A] \<or> x = ''.gz'' \<or> x = ''.gz'' @ [CHR 0x0A]"
proof (cases "at_end x")
  case True
  then have "x = [] \<or> x = [CHR 0x0A]" unfolding at_end_def .
  then show ?thesis by blast
next
  case False
  with assms have a: "take 3 x = ''.gz''" and b: "drop 3 x = [] \<or> drop 3 x = [CHR 0x0A]"
    by (simp_all add: startswith_def at_end_def eval_nat_numeral)
  have c: "take 3 x @ drop 3 x = x" by (rule append_take_drop_id)
  from b show ?thesis
  proof
    assume "drop 3 x = []"
    with a c have "x = ''.gz''" by simp
    then show ?thesis by simp
  next
    assume "drop 3 x = [CHR 0x0A]"
    with a c have "x = ''.gz'' @ [CHR 0x0A]" by simp
    then show ?thesis by simp
  qed
qed

lemma match_tail_Some:
  assumes "match_tail r = Some (d, t)"
  shows "\<exists>rest. r = ''_'' @ d @ ''_'' @ t @ ''.tar'' @ rest \<and> length t = 6
           \<and> list_all is_digit t
           \<and> (rest = [] \<or> rest = [CHR 0x0A] \<or> rest = ''.gz'' \<or> rest = ''.gz'' @ [CHR 0x0A])"
proof -
  from assms have c: "take 1 r = ''_''" "take 1 (drop 9 r) = ''_''" "take 4 (drop 16 r) = ''.tar''"
    and d: "d = take 8 (drop 1 r)" and t: "t = take 6 (drop 10 r)"
    and l: "length (take 6 (drop 10 r)) = 6" "list_all is_digit (take 6 (drop 10 r))"
    and e: "(startswith (drop 20 r) ''.gz'' \<and> at_end (drop 3 (drop 20 r))) \<or> at_end (drop 20 r)"
    by (simp_all add: match_tail_def Let_def split: if_splits)
  have r: "r = ''_'' @ d @ ''_'' @ t @ ''.tar'' @ drop 20 r"
    using split_tail [of r] c d t by simp
  have "drop 20 r = [] \<or> drop 20 r = [CHR 0x0A] \<or> drop 20 r = ''.gz''
      \<or> drop 20 r = ''.gz'' @ [CHR 0x0A]"
    using e by (rule optional_gz)
  with r l t show ?thesis by blast
qed

lemma endswith_append: "endswith (xs @ p) p"
  by (simp add: endswith_def)

lemma endswith_suffix: "endswith s p \<Longrightarrow> \<exists>a. s = a @ p"
  by (metis append_take_drop_id endswith_def)

lemma six_chars: "length t = 6 \<Longrightarrow> \<exists>a b c d e f. t = [a, b, c, d, e, f]"
  by (simp add: eval_nat_numeral length_Suc_conv) blast

lemma digits_no_tar_gz:
  assumes "length t = 6" and "list_all is_digit t"
  shows "\<not> endswith (pre @ t @ ''.tar'') ''.tar.gz''"
proof
  assume "endswith (pre @ t @ ''.tar'') ''.tar.gz''"
  then obtain x where x: "pre @ t @ ''.tar'' = x @ ''.tar.gz''"
    using endswith_suffix by blast
  obtain a b c d e f where t: "t = [a, b, c, d, e, f]"
    using assms(1) six_chars by blast
  have "(pre @ [a, b, c]) @ [d, e, f, CHR ''.'', CHR ''t'', CHR ''a'', CHR ''r''] = x @ ''.tar.gz''"
    using x t by simp
  then have "[d, e, f, CHR ''.'', CHR ''t'', CHR ''a'', CHR ''r''] = ''.tar.gz''"
    by (subst (asm) append_eq_append_conv) simp_all
  then have "d = CHR ''.''" by simp
  moreover have "is_digit d" using assms(2) t by simp
  ultimately show False by (simp add: is_digit_def ord_def)
qed

lemma parse_shape:
  assumes "parse_backup_filename fn = Some p"
  shows "\<exists>rest. fn = backup_filename p (''.tar'' @ rest) \<and> length (time p) = 6
           \<and> list_all is_digit (time p)
           \<and> (rest = [] \<or> rest = [CHR 0x0A] \<or> rest = ''.gz'' \<or> rest = ''.gz'' @ [CHR 0x0A])"
proof -
  define body where "body = drop 7 fn"
  from assms have pre: "take 7 fn = ''backup_''"
    by (simp add: parse_backup_filename_def startswith_def eval_nat_numeral split: if_splits)
  have fn: "fn = ''backup_'' @ body"
    using append_take_drop_id [of 7 fn] pre by (simp add: body_def)
  from assms obtain w d t where
    m: "match_world (length (takeWhile (\<lambda>c. c \<noteq> CHR 0x0A) body)) body = Some (w, d, t)"
    and p: "p = \<lparr>world_name = w, date = d, time = t\<rparr>"
    by (auto simp: parse_backup_filename_def Let_def body_def split: if_splits option.splits)
  from m obtain k where k: "w = take k body" "match_tail (drop k body) = Some (d, t)"
    using match_world_Some by blast
  from k(2) obtain rest where
    r: "drop k body = ''_'' @ d @ ''_'' @ t @ ''.tar'' @ rest" "length t = 6" "list_all is_digit t"
      "rest = [] \<or> rest = [CHR 0x0A] \<or> rest = ''.gz'' \<or> rest = ''.gz'' @ [CHR 0x0A]"
    using match_tail_Some by blast
  have "body = w @ ''_'' @ d @ ''_'' @ t @ ''.tar'' @ rest"
    using append_take_drop_id [of k body] k(1) r(1) by simp
  with fn have "fn = backup_filename p (''.tar'' @ rest)"
    by (simp add: backup_filename_def p)
  with r p show ?thesis by auto
qed

text \<open>
  A name that the parser accepts and that does not end in a newline is given back by
  its parts and its own suffix.
\<close>

lemma parse_roundtrip:
  assumes "parse_backup_filename fn = Some p" and "\<not> endswith fn [CHR 0x0A]"
  shows "backup_filename p (if endswith fn ''.tar.gz'' then ''.tar.gz'' else ''.tar'') = fn"
proof -
  obtain rest where fn: "fn = backup_filename p (''.tar'' @ rest)"
    and t: "length (time p) = 6" "list_all is_digit (time p)"
    and rest: "rest = [] \<or> rest = [CHR 0x0A] \<or> rest = ''.gz'' \<or> rest = ''.gz'' @ [CHR 0x0A]"
    using parse_shape [OF assms(1)] by blast
  have nl: "endswith (backup_filename p (sfx @ [CHR 0x0A])) [CHR 0x0A]" for sfx
    using endswith_append [of "backup_filename p sfx" "[CHR 0x0A]"]
    by (simp add: backup_filename_def)
  from rest consider "rest = []" | "rest = ''.gz''"
    using assms(2) fn nl [of "''.tar''"] nl [of "''.tar.gz''"] by auto
  then show ?thesis
  proof cases
    case 1
    have "\<not> endswith fn ''.tar.gz''"
      using digits_no_tar_gz [OF t, of "''backup_'' @ world_name p @ ''_'' @ date p @ ''_''"] fn 1
      by (simp add: backup_filename_def)
    with fn 1 show ?thesis by simp
  next
    case 2
    have "endswith fn ''.tar.gz''"
      using endswith_append [of "''backup_'' @ world_name p @ ''_'' @ date p @ ''_'' @ time p" "''.tar.gz''"]
        fn 2
      by (simp add: backup_filename_def)
    with fn 2 show ?thesis by simp
  qed
qed

section \<open>What a backup listing holds\<close>

lemma collect_backups_entry:
  "collect_backups cfg flt s fns = Inr bs \<Longrightarrow> b \<in> set bs
   \<Longrightarrow> be_filename b \<in> set fns
     \<and> (endswith (be_filename b) ''.tar.gz'' \<or> endswith (be_filename b) ''.tar'')
     \<and> parse_backup_filename (be_filename b)
         = Some \<lparr>world_name = be_world_name b, date = be_date b, time = be_time b\<rparr>"
proof (induction fns arbitrary: bs)
  case Nil
  then show ?case by simp
next
  case (Cons f fns)
  from Cons.prems show ?case
    using Cons.IH by (auto split: if_splits option.splits sum.splits)
qed

lemma set_sort_newest_first: "set (sort_newest_first bs) = set bs"
  by (simp add: sort_newest_first_def)

lemma list_backups_found:
  assumes "list_backups cfg flt limit s = Inr l" and "b \<in> set (backups l)"
  shows "\<exists>found. collect_backups cfg flt s (listdir s (BACKUP_DIR cfg)) = Inr found
    \<and> b \<in> set found"
proof -
  obtain found where f: "(if exists s (BACKUP_DIR cfg)
      then collect_backups cfg flt s (listdir s (BACKUP_DIR cfg)) else Inr []) = Inr found"
    using assms(1) by (auto simp: list_backups_def split: sum.splits)
  have "backups l = sort_newest_first found
      \<or> (\<exists>n. backups l = take n (sort_newest_first found))"
    using assms(1) unfolding list_backups_def f Let_def
    by (auto split: sum.splits option.splits if_splits)
  with assms(2) have "b \<in> set (sort_newest_first found)"
    by (auto dest: in_set_takeD)
  then have b: "b \<in> set found" by (simp add: set_sort_newest_first)
  with f have "exists s (BACKUP_DIR cfg)" by (auto split: if_splits)
  with f b show ?thesis by simp
qed

text \<open>
  Every entry of a backup listing names a file of the backup directory that the parser
  accepts, with the parts the parser extracts, and these parts give the name back; a
  name that the parser rejects is in no listing.
\<close>

lemma listed_backup_parses:
  assumes "list_backups cfg flt limit s = Inr l" and "b \<in> set (backups l)"
  shows "be_filename b \<in> set (listdir s (BACKUP_DIR cfg))
    \<and> parse_backup_filename (be_filename b)
        = Some \<lparr>world_name = be_world_name b, date = be_date b, time = be_time b\<rparr>
    \<and> backup_filename \<lparr>world_name = be_world_name b, date = be_date b, time = be_time b\<rparr>
        (if endswith (be_filename b) ''.tar.gz'' then ''.tar.gz'' else ''.tar'')
        = be_filename b"
proof -
  obtain found where "collect_backups cfg flt s (listdir s (BACKUP_DIR cfg)) = Inr found"
    and "b \<in> set found"
    using list_backups_found [OF assms] by blast
  then have e: "be_filename b \<in> set (listdir s (BACKUP_DIR cfg))"
    "endswith (be_filename b) ''.tar.gz'' \<or> endswith (be_filename b) ''.tar''"
    "parse_backup_filename (be_filename b)
      = Some \<lparr>world_name = be_world_name b, date = be_date b, time = be_time b\<rparr>"
    using collect_backups_entry by blast+
  have "\<not> endswith (be_filename b) [CHR 0x0A]"
  proof
    assume "endswith (be_filename b) [CHR 0x0A]"
    then obtain a where a: "be_filename b = a @ [CHR 0x0A]"
      using endswith_suffix by blast
    from e(2) obtain a' where "be_filename b = a' @ ''.tar.gz'' \<or> be_filename b = a' @ ''.tar''"
      using endswith_suffix by blast
    with a have "last (a @ [CHR 0x0A]) = CHR ''z'' \<or> last (a @ [CHR 0x0A]) = CHR ''r''"
      by (metis last_appendR last.simps list.distinct(1))
    then show False by simp
  qed
  with e(3) have "backup_filename \<lparr>world_name = be_world_name b, date = be_date b, time = be_time b\<rparr>
        (if endswith (be_filename b) ''.tar.gz'' then ''.tar.gz'' else ''.tar'')
        = be_filename b"
    by (rule parse_roundtrip)
  with e show ?thesis by simp
qed

lemma unparsed_not_listed:
  assumes "parse_backup_filename fn = None" and "list_backups cfg flt limit s = Inr l"
  shows "fn \<notin> be_filename ` set (backups l)"
  using assms listed_backup_parses by fastforce

section \<open>Log windows\<close>

lemmas log_eval =
  get_log_def log_files_def log_sys_def default_config_def path_join_def startswith_def
  endswith_def exists_def slice_def slice_from_def py_index_def Let_def

text \<open>
  C6 fails for a window of zero lines: \<open>all_lines[-0:]\<close> is the whole list, so a read
  with \<open>lines=0\<close> and no offset returns every line of a three-line file, with
  \<open>start_line = 3\<close> and \<open>end_line = 6\<close>.
\<close>

theorem get_log_zero_window:
  "get_log default_config ''server'' (Some 0) None (log_sys [''a'', ''b'', ''c''])
     = LogPage ''terraria-stdout.log''
         \<lparr>selected_lines = [''a'', ''b'', ''c''], content = ''abc'', lines_returned = 3,
          total_lines = 3, start_line = 3, end_line = 6\<rparr>"
  by (simp add: log_eval)

lemma get_log_tail_example:
  "get_log default_config ''server'' (Some 5) (Some 0)
       (log_sys [''one'', ''two'', ''three'', ''four'', ''five'', ''six'', ''seven'', ''eight'',
          ''nine'', ''ten''])
     = LogPage ''terraria-stdout.log''
         \<lparr>selected_lines = [''six'', ''seven'', ''eight'', ''nine'', ''ten''],
          content = ''sixseveneightnineten'',
          lines_returned = 5, total_lines = 10, start_line = 5, end_line = 10\<rparr>"
  by (simp add: log_eval)

text \<open>
  For a window of at least one line the reads are as described: with offset 0 the last
  \<open>w\<close> lines and \<open>start_line = max (total - w) 0\<close>; with an offset above 0 the \<open>w\<close>
  lines from the offset on, as far as the file has them, and \<open>start_line = offset\<close>.
\<close>

lemma get_log_tail:
  assumes "map_of log_files t = Some f"
    and "exists s (path_join (LOG_DIR cfg) f)"
    and "readlines s (path_join (LOG_DIR cfg) f) = Inr ls"
    and "max (case offset_arg of None \<Rightarrow> 0 | Some n \<Rightarrow> n) 0 = 0"
    and "w = min (case lines_arg of None \<Rightarrow> 100 | Some n \<Rightarrow> n) 1000"
    and "1 \<le> w"
  shows "get_log cfg t lines_arg offset_arg s
    = LogPage f
        \<lparr>selected_lines = drop (length ls - nat w) ls,
         content = concat (drop (length ls - nat w) ls),
         lines_returned = int (length (drop (length ls - nat w) ls)),
         total_lines = int (length ls),
         start_line = max (int (length ls) - w) 0,
         end_line = max (int (length ls) - w) 0 + int (length (drop (length ls - nat w) ls))\<rparr>"
proof -
  have sel: "(if w < int (length ls) then slice_from (- w) ls else ls)
      = drop (length ls - nat w) ls"
  proof (cases "w < int (length ls)")
    case True
    with assms(6) have "py_index (- w) (length ls) = length ls - nat w"
      by (simp add: py_index_def nat_diff_distrib')
    with True show ?thesis by (simp add: slice_from_def)
  next
    case False
    then have "length ls - nat w = 0" by simp
    with False show ?thesis by simp
  qed
  show ?thesis
    using assms(1-4) sel by (simp add: get_log_def Let_def assms(5) [symmetric])
qed

lemma get_log_forward:
  assumes "map_of log_files t = Some f"
    and "exists s (path_join (LOG_DIR cfg) f)"
    and "readlines s (path_join (LOG_DIR cfg) f) = Inr ls"
    and "offset_arg = Some off" and "0 < off"
    and "w = min (case lines_arg of None \<Rightarrow> 100 | Some n \<Rightarrow> n) 1000"
    and "0 \<le> w"
  shows "get_log cfg t lines_arg offset_arg s
    = LogPage f
        \<lparr>selected_lines = take (nat w) (drop (nat off) ls),
         content = concat (take (nat w) (drop (nat off) ls)),
         lines_returned = int (length (take (nat w) (drop (nat off) ls))),
         total_lines = int (length ls),
         start_line = off,
         end_line = off + int (length (take (nat w) (drop (nat off) ls)))\<rparr>"
proof -
  have sel: "slice off (off + w) ls = take (nat w) (drop (nat off) ls)"
  proof (cases "nat off \<le> length ls")
    case True
    have a: "py_index off (length ls) = nat off"
      using True assms(5) by (simp add: py_index_def)
    have b: "py_index (off + w) (length ls) = min (nat off + nat w) (length ls)"
      using assms(5,7) by (simp add: py_index_def nat_add_distrib)
    have "take (min (nat off + nat w) (length ls) - nat off) (drop (nat off) ls)
        = take (nat w) (drop (nat off) ls)"
    proof (cases "nat off + nat w \<le> length ls")
      case True
      then show ?thesis by simp
    next
      case False
      then have "length (drop (nat off) ls) \<le> nat w" by simp
      moreover have "length (drop (nat off) ls) \<le> min (nat off + nat w) (length ls) - nat off"
        using False by simp
      ultimately show ?thesis by simp
    qed
    then show ?thesis by (simp add: slice_def a b)
  next
    case False
    then have "py_index off (length ls) = length ls"
      using assms(5) by (simp add: py_index_def)
    with False show ?thesis by (simp add: slice_def)
  qed
  have o: "max off 0 = off" "off \<noteq> 0" using assms(5) by simp_all
  show ?thesis
    using assms(1-3) sel o by (simp add: get_log_def Let_def assms(4) assms(6) [symmetric])
qed

end
